theory Spec2Isabelle
  imports Main "HOL-Library.Word"
begin

unbundle bit_operations_syntax

section \<open>Build configuration and constants\<close>

text \<open>
  The sources are compiled against \<^verbatim>\<open>stm32f4xx.h\<close>, which is not among them. The
  preprocessor symbol \<^verbatim>\<open>__CORTEX_M\<close> selects between the two variants of every
  \<^verbatim>\<open>#if (__CORTEX_M >= 3)\<close> block; it is the first argument \<open>cortex_m\<close> of each function
  that has such a block. The STM32F4 device headers give \<^verbatim>\<open>__CORTEX_M = 4\<close> and
  \<^verbatim>\<open>__NVIC_PRIO_BITS = 4\<close>.
\<close>

definition MAX_NVIC_REG_WORDS :: nat where
  "MAX_NVIC_REG_WORDS = 8"

definition INTERRUPT_HIGHEST_PRIORITY :: "32 word" where
  "INTERRUPT_HIGHEST_PRIORITY = 0"

definition INTERRUPT_LOWEST_PRIORITY :: "nat \<Rightarrow> 32 word" where
  "INTERRUPT_LOWEST_PRIORITY cortex_m = (if 3 \<le> cortex_m then 7 else 3)"

definition NVIC_PRIO_BITS :: nat where
  "NVIC_PRIO_BITS = 4"

definition BASEPRI_START_BIT :: nat where
  "BASEPRI_START_BIT = 8 - NVIC_PRIO_BITS"

definition MemoryManagement_IRQn :: int where
  "MemoryManagement_IRQn = - 12"

definition SVCall_IRQn :: int where
  "SVCall_IRQn = - 5"

definition SCB_ICSR_VECTACTIVE_Msk :: "32 word" where
  "SCB_ICSR_VECTACTIVE_Msk = 0x1FF"

definition SCB_ICSR_VECTACTIVE_Pos :: nat where
  "SCB_ICSR_VECTACTIVE_Pos = 0"

text \<open>
  \<^verbatim>\<open>IRQn_Type\<close> is the enumeration of the line numbers. The device header that declares
  it is not among the sources, and the width of its underlying signed integer type is
  the choice of the compiler: one byte where an enumeration is as short as its values
  allow (the enumerators of the STM32F4 lie between -14 and about 90), four bytes where
  an enumeration is an \<^verbatim>\<open>int\<close>. The width in bits is the argument \<open>irqn_bits\<close> of the
  functions that cast to the type, and \<open>IRQn_Type irqn_bits n\<close> is the cast
  \<^verbatim>\<open>(IRQn_Type)n\<close>.
\<close>

definition IRQn_Type :: "nat \<Rightarrow> int \<Rightarrow> int" where
  "IRQn_Type irqn_bits n = signed_take_bit (irqn_bits - 1) n"

section \<open>Data\<close>

text \<open>
  \<^verbatim>\<open>NVIC_Mask_t\<close> is a struct whose only member is \<^verbatim>\<open>uint32_t reg[MAX_NVIC_REG_WORDS]\<close>:
  a list of eight 32-bit words.
\<close>

type_synonym NVIC_Mask_t = "32 word list"

definition mask_ok :: "NVIC_Mask_t \<Rightarrow> bool" where
  "mask_ok m = (length m = MAX_NVIC_REG_WORDS)"

text \<open>Register writes and barriers, in program order.\<close>

datatype event =
    PRIMASK_write bool
  | BASEPRI_write "32 word"
  | ISER_write NVIC_Mask_t
  | ICER_write NVIC_Mask_t
  | Barrier

text \<open>
  The machine: the core registers PRIMASK (one bit) and BASEPRI (of which only the
  upper \<^verbatim>\<open>__NVIC_PRIO_BITS\<close> bits of the low byte exist), the interrupt enable state of
  the NVIC, \<^verbatim>\<open>SCB->ICSR\<close>, the configured priority of every line as
  \<^verbatim>\<open>NVIC_GetPriority\<close> reports it, the file-scope variable \<^verbatim>\<open>basePriLevel\<close> (an
  \<^verbatim>\<open>int8_t\<close>), and the trace of register writes and barriers executed so far.
\<close>

record hw =
  primask :: bool
  basepri :: "4 word"
  nvic_enable :: NVIC_Mask_t
  icsr :: "32 word"
  priority :: "int \<Rightarrow> 32 word"
  basePriLevel :: "8 word"
  trace :: "event list"

text \<open>The initialiser of \<^verbatim>\<open>static int8_t basePriLevel\<close>: 3, or -1 without BASEPRI.\<close>

definition basePriLevel_init :: "nat \<Rightarrow> 8 word" where
  "basePriLevel_init cortex_m = (if 3 \<le> cortex_m then 3 else - 1)"

section \<open>Platform layer\<close>

text \<open>
  Modelled from the spec: the CMSIS-Core intrinsics and the NVIC registers come from
  \<^verbatim>\<open>stm32f4xx.h\<close>, which is not among the sources. Section 6 of the specification lists
  them: a full-mask register with get/enable/disable, a priority-threshold register
  with get/set, an interrupt controller with set-enable, clear-enable and enable-query
  registers organised as an array of words, the active exception number, a per-line
  priority accessor and a synchronisation barrier. Writing a word to the set-enable
  register sets exactly the enable bits named in it, writing a word to the clear-enable
  register clears exactly the enable bits named in it (section 4.3), and reading either
  returns the current enable state.
\<close>

definition get_PRIMASK :: "hw \<Rightarrow> 32 word" where
  "get_PRIMASK s = (if primask s then 1 else 0)"

definition disable_irq :: "hw \<Rightarrow> hw" where
  "disable_irq s = s\<lparr>primask := True, trace := trace s @ [PRIMASK_write True]\<rparr>"

definition enable_irq :: "hw \<Rightarrow> hw" where
  "enable_irq s = s\<lparr>primask := False, trace := trace s @ [PRIMASK_write False]\<rparr>"

definition get_BASEPRI :: "hw \<Rightarrow> 32 word" where
  "get_BASEPRI s = push_bit BASEPRI_START_BIT (ucast (basepri s))"

definition set_BASEPRI :: "32 word \<Rightarrow> hw \<Rightarrow> hw" where
  "set_BASEPRI v s =
     s\<lparr>basepri := ucast (drop_bit BASEPRI_START_BIT v), trace := trace s @ [BASEPRI_write v]\<rparr>"

definition ISB :: "hw \<Rightarrow> hw" where
  "ISB s = s\<lparr>trace := trace s @ [Barrier]\<rparr>"

definition read_ISER :: "hw \<Rightarrow> NVIC_Mask_t" where
  "read_ISER s = nvic_enable s"

definition read_ICER :: "hw \<Rightarrow> NVIC_Mask_t" where
  "read_ICER s = nvic_enable s"

definition write_ISER :: "NVIC_Mask_t \<Rightarrow> hw \<Rightarrow> hw" where
  "write_ISER v s =
     s\<lparr>nvic_enable := map2 (\<lambda>e w. e OR w) (nvic_enable s) v, trace := trace s @ [ISER_write v]\<rparr>"

definition write_ICER :: "NVIC_Mask_t \<Rightarrow> hw \<Rightarrow> hw" where
  "write_ICER v s =
     s\<lparr>nvic_enable := map2 (\<lambda>e w. e AND NOT w) (nvic_enable s) v,
       trace := trace s @ [ICER_write v]\<rparr>"

definition NVIC_GetPriority :: "int \<Rightarrow> hw \<Rightarrow> 32 word" where
  "NVIC_GetPriority irqNum s = priority s irqNum"

section \<open>Macros of interrupt\_handling.c\<close>

text \<open>The casts \<^verbatim>\<open>(int16_t)(IRQn)\<close> and \<^verbatim>\<open>(uint8_t)irqNum\<close> of an \<^verbatim>\<open>IRQn_Type\<close> value.\<close>

definition int16_t :: "int \<Rightarrow> int" where
  "int16_t n = sint (word_of_int n :: 16 word)"

definition uint8_t :: "int \<Rightarrow> 8 word" where
  "uint8_t n = word_of_int n"

definition IS_EXCEPTION_NUM :: "int \<Rightarrow> bool" where
  "IS_EXCEPTION_NUM IRQn = (int16_t IRQn \<ge> - 16 \<and> int16_t IRQn < 0)"

definition IS_INTERRUPT_NUM :: "int \<Rightarrow> bool" where
  "IS_INTERRUPT_NUM IRQn = (int16_t IRQn \<ge> 0 \<and> int16_t IRQn < 0xF0)"

definition IS_IRQn :: "int \<Rightarrow> bool" where
  "IS_IRQn IRQn = (IS_INTERRUPT_NUM IRQn \<or> IS_EXCEPTION_NUM IRQn)"

definition IS_INT_LVL_VALID :: "nat \<Rightarrow> 8 word \<Rightarrow> bool" where
  "IS_INT_LVL_VALID cortex_m intLevel =
     (INTERRUPT_HIGHEST_PRIORITY < ucast intLevel
      \<and> (ucast intLevel :: 32 word) \<le> INTERRUPT_LOWEST_PRIORITY cortex_m)"

text \<open>\<^verbatim>\<open>basePriLevel << BASEPRI_START_BIT\<close>, converted to \<^verbatim>\<open>uint32_t\<close>.\<close>

definition basePriLevel_shifted :: "hw \<Rightarrow> 32 word" where
  "basePriLevel_shifted s = push_bit BASEPRI_START_BIT (scast (basePriLevel s))"

section \<open>PRIMASK: critical sections\<close>

definition PRIMASK_EnterCriticalSection :: "hw \<Rightarrow> 32 word \<times> hw" where
  "PRIMASK_EnterCriticalSection s =
     (let irqState = get_PRIMASK s in (irqState, disable_irq s))"

definition PRIMASK_ExitCriticalSection :: "32 word \<Rightarrow> hw \<Rightarrow> hw" where
  "PRIMASK_ExitCriticalSection irqState s = (if irqState = 0 then enable_irq s else s)"

definition PRIMASK_DisableIrq :: "hw \<Rightarrow> hw" where
  "PRIMASK_DisableIrq s = disable_irq s"

definition PRIMASK_EnableIrq :: "hw \<Rightarrow> hw" where
  "PRIMASK_EnableIrq s = enable_irq s"

definition PRIMASK_TriggerPendingInterrupts :: "hw \<Rightarrow> hw" where
  "PRIMASK_TriggerPendingInterrupts s =
     (if get_PRIMASK s AND 1 \<noteq> 0 then disable_irq (ISB (enable_irq s)) else s)"

text \<open>
  Modelled from the spec: \<^verbatim>\<open>PRIMASK_EnterNoInterruptsSection\<close> and
  \<^verbatim>\<open>PRIMASK_ExitNoInterruptsSection\<close>, which the macro \<^verbatim>\<open>NO_INTERRUPTS_SECTION\<close> calls, are
  declared in the header and defined nowhere in the sources. The specification has the
  bracketed register accesses run inside a full critical section, so the pair is the
  critical-section pair above.
\<close>

definition PRIMASK_EnterNoInterruptsSection :: "hw \<Rightarrow> 32 word \<times> hw" where
  "PRIMASK_EnterNoInterruptsSection s = PRIMASK_EnterCriticalSection s"

definition PRIMASK_ExitNoInterruptsSection :: "32 word \<Rightarrow> hw \<Rightarrow> hw" where
  "PRIMASK_ExitNoInterruptsSection irqState s = PRIMASK_ExitCriticalSection irqState s"

definition NO_INTERRUPTS_SECTION :: "(hw \<Rightarrow> 'a \<times> hw) \<Rightarrow> hw \<Rightarrow> 'a \<times> hw" where
  "NO_INTERRUPTS_SECTION inputSection s =
     (let (irqState, s1) = PRIMASK_EnterNoInterruptsSection s;
          (r, s2) = inputSection s1
      in (r, PRIMASK_ExitNoInterruptsSection irqState s2))"

section \<open>BASEPRI: threshold sections\<close>

definition BASEPRI_SetPriorityLevelThreshold :: "nat \<Rightarrow> 8 word \<Rightarrow> hw \<Rightarrow> bool \<times> hw" where
  "BASEPRI_SetPriorityLevelThreshold cortex_m inputBasePriLevel s =
     (if 3 \<le> cortex_m then
        (if IS_INT_LVL_VALID cortex_m inputBasePriLevel
         then (True, s\<lparr>basePriLevel := inputBasePriLevel\<rparr>)
         else (False, s))
      else (False, s))"

definition BASEPRI_GetPriorityLevelThreshold :: "hw \<Rightarrow> int" where
  "BASEPRI_GetPriorityLevelThreshold s = sint (basePriLevel s)"

definition BASEPRI_EnterInterruptsDisabledByThresholdSection :: "nat \<Rightarrow> hw \<Rightarrow> 32 word \<times> hw" where
  "BASEPRI_EnterInterruptsDisabledByThresholdSection cortex_m s =
     (if 3 \<le> cortex_m then
        (let irqState = get_BASEPRI s in (irqState, set_BASEPRI (basePriLevel_shifted s) s))
      else PRIMASK_EnterCriticalSection s)"

definition BASEPRI_ExitInterruptsDisabledByThresholdSection :: "nat \<Rightarrow> 32 word \<Rightarrow> hw \<Rightarrow> hw" where
  "BASEPRI_ExitInterruptsDisabledByThresholdSection cortex_m irqState s =
     (if 3 \<le> cortex_m then set_BASEPRI irqState s else PRIMASK_ExitCriticalSection irqState s)"

definition BASEPRI_DisableIrqByThreshold :: "nat \<Rightarrow> hw \<Rightarrow> hw" where
  "BASEPRI_DisableIrqByThreshold cortex_m s =
     (if 3 \<le> cortex_m then set_BASEPRI (basePriLevel_shifted s) s else PRIMASK_DisableIrq s)"

definition BASEPRI_EnableIrqByThreshold :: "nat \<Rightarrow> hw \<Rightarrow> hw" where
  "BASEPRI_EnableIrqByThreshold cortex_m s =
     (if 3 \<le> cortex_m then set_BASEPRI 0 s else PRIMASK_EnableIrq s)"

definition BASEPRI_TriggerPendingInterruptsByThreshold :: "nat \<Rightarrow> hw \<Rightarrow> hw" where
  "BASEPRI_TriggerPendingInterruptsByThreshold cortex_m s =
     (if 3 \<le> cortex_m then
        (let irqState = get_BASEPRI s in
         if irqState \<ge> basePriLevel_shifted s
         then set_BASEPRI irqState (ISB (set_BASEPRI 0 s))
         else s)
      else PRIMASK_TriggerPendingInterrupts s)"

section \<open>NVIC: specific interrupt lines\<close>

definition NVIC_DisableSpecificInterrupts :: "NVIC_Mask_t \<Rightarrow> hw \<Rightarrow> hw" where
  "NVIC_DisableSpecificInterrupts disable s =
     snd (NO_INTERRUPTS_SECTION (\<lambda>s1. ((), write_ICER disable s1)) s)"

definition NVIC_EnableSpecificInterrupts :: "NVIC_Mask_t \<Rightarrow> hw \<Rightarrow> hw" where
  "NVIC_EnableSpecificInterrupts enable s =
     snd (NO_INTERRUPTS_SECTION (\<lambda>s1. ((), write_ISER enable s1)) s)"

text \<open>The out-parameter \<^verbatim>\<open>nvicState\<close> is the first component of the result.\<close>

definition NVIC_EnterSpecificInterruptDisabledSection :: "NVIC_Mask_t \<Rightarrow> hw \<Rightarrow> NVIC_Mask_t \<times> hw" where
  "NVIC_EnterSpecificInterruptDisabledSection disable s =
     NO_INTERRUPTS_SECTION (\<lambda>s1. (let nvicState = read_ICER s1 in (nvicState, write_ICER disable s1))) s"

definition NVIC_ExitSpecificInterruptDisabledSection :: "NVIC_Mask_t \<Rightarrow> hw \<Rightarrow> hw" where
  "NVIC_ExitSpecificInterruptDisabledSection disable s = NVIC_DisableSpecificInterrupts disable s"

definition NVIC_GetNvicIserMask :: "hw \<Rightarrow> NVIC_Mask_t \<times> hw" where
  "NVIC_GetNvicIserMask s = NO_INTERRUPTS_SECTION (\<lambda>s1. (read_ISER s1, s1)) s"

text \<open>
  The two loops over the mask words are written \<^verbatim>\<open>for (size_t i; i < MAX_NVIC_REG_WORDS; i++)\<close>:
  the counter has no initialiser, so the value it starts from is indeterminate. The
  functions below take that value as their first argument \<open>i\<close>. (The parameter
  \<^verbatim>\<open>mask\<close> of the source is \<open>msk\<close> here.)
\<close>

function trigger_loop :: "nat \<Rightarrow> NVIC_Mask_t \<Rightarrow> NVIC_Mask_t \<Rightarrow> bool \<Rightarrow> NVIC_Mask_t \<times> bool" where
  "trigger_loop i enable nvicMask shouldTrigger =
     (if i < MAX_NVIC_REG_WORDS then
        (let m1 = nvicMask[i := nvicMask ! i AND enable ! i];
             m2 = m1[i := NOT (m1 ! i) AND enable ! i]
         in trigger_loop (i + 1) enable m2 (if m2 ! i \<noteq> 0 then True else shouldTrigger))
      else (nvicMask, shouldTrigger))"
  by pat_completeness auto
termination
  by (relation "measure (\<lambda>(i, enable, nvicMask, shouldTrigger). MAX_NVIC_REG_WORDS - i)") auto

definition NVIC_TriggerSpecificPendingInterrupts :: "nat \<Rightarrow> NVIC_Mask_t \<Rightarrow> hw \<Rightarrow> hw" where
  "NVIC_TriggerSpecificPendingInterrupts i enable s =
     (let (nvicMask0, s1) = NO_INTERRUPTS_SECTION (\<lambda>s1. (read_ISER s1, s1)) s;
          (nvicMask, shouldTrigger) = trigger_loop i enable nvicMask0 False
      in if shouldTrigger then write_ICER nvicMask (ISB (write_ISER nvicMask s1)) else s1)"

definition NVIC_SetSpecificInterruptInAMask :: "int \<Rightarrow> NVIC_Mask_t \<Rightarrow> NVIC_Mask_t" where
  "NVIC_SetSpecificInterruptInAMask irqNum msk =
     (if IS_INTERRUPT_NUM irqNum then
        (let w = unat (drop_bit 5 (uint8_t irqNum))
         in msk[w := msk ! w OR push_bit (unat (uint8_t irqNum AND 0x1F)) 1])
      else msk)"

definition NVIC_ClearSpecificInterruptInAMask :: "int \<Rightarrow> NVIC_Mask_t \<Rightarrow> NVIC_Mask_t" where
  "NVIC_ClearSpecificInterruptInAMask irqNum msk =
     (if IS_INTERRUPT_NUM irqNum then
        (let w = unat (drop_bit 5 (uint8_t irqNum))
         in msk[w := msk ! w AND NOT (push_bit (unat (uint8_t irqNum AND 0x1F)) 1)])
      else msk)"

function disabled_loop :: "nat \<Rightarrow> NVIC_Mask_t \<Rightarrow> NVIC_Mask_t \<Rightarrow> bool \<Rightarrow> bool" where
  "disabled_loop i msk nvicMask isIserDisabled =
     (if i < MAX_NVIC_REG_WORDS then
        (if msk ! i AND nvicMask ! i \<noteq> 0 then False
         else disabled_loop (i + 1) msk nvicMask isIserDisabled)
      else isIserDisabled)"
  by pat_completeness auto
termination
  by (relation "measure (\<lambda>(i, msk, nvicMask, isIserDisabled). MAX_NVIC_REG_WORDS - i)") auto

definition NVIC_IsNvicIserMaskDisabled :: "nat \<Rightarrow> NVIC_Mask_t \<Rightarrow> hw \<Rightarrow> bool \<times> hw" where
  "NVIC_IsNvicIserMaskDisabled i msk s =
     (let (nvicMask, s1) = NO_INTERRUPTS_SECTION (\<lambda>s1. (read_ISER s1, s1)) s
      in (disabled_loop i msk nvicMask True, s1))"

definition NVIC_IsIRQnDisabled :: "int \<Rightarrow> hw \<Rightarrow> bool" where
  "NVIC_IsIRQnDisabled irqNum s =
     (if IS_INTERRUPT_NUM irqNum then
        (let msk = read_ISER s
         in msk ! unat (drop_bit 5 (uint8_t irqNum))
              AND push_bit (unat (uint8_t irqNum AND 0x1F)) 1 = 0)
      else True)"

section \<open>Queries\<close>

definition IRQ_IsInIrqContext :: "hw \<Rightarrow> bool" where
  "IRQ_IsInIrqContext s = (icsr s AND SCB_ICSR_VECTACTIVE_Msk \<noteq> 0)"

text \<open>
  \<^verbatim>\<open>ASSERT(cond)\<close> is \<^verbatim>\<open>if ((cond) == 0) while (1) {}\<close>: a failed assertion never returns,
  which is the result \<open>None\<close>. With the threshold register the assertion compares
  \<^verbatim>\<open>irqNum\<close> with \<^verbatim>\<open>(IRQn_Type)0xF0\<close>; without it, \<^verbatim>\<open>(IRQn_Type)irqNum\<close> with \<^verbatim>\<open>0xF0\<close>.
\<close>

definition IRQ_IsIRQnBlocked_assert :: "nat \<Rightarrow> nat \<Rightarrow> int \<Rightarrow> bool" where
  "IRQ_IsIRQnBlocked_assert cortex_m irqn_bits irqNum =
     (if 3 \<le> cortex_m
      then irqNum \<ge> MemoryManagement_IRQn \<and> irqNum < IRQn_Type irqn_bits 0xF0
      else irqNum \<ge> SVCall_IRQn \<and> IRQn_Type irqn_bits irqNum < 0xF0)"

definition IRQ_IsIRQnBlocked :: "nat \<Rightarrow> nat \<Rightarrow> int \<Rightarrow> hw \<Rightarrow> bool option" where
  "IRQ_IsIRQnBlocked cortex_m irqn_bits irqNum s =
     (if \<not> IRQ_IsIRQnBlocked_assert cortex_m irqn_bits irqNum then None
      else if get_PRIMASK s AND 1 \<noteq> 0 then Some True
      else if NVIC_IsIRQnDisabled irqNum s then Some True
      else
        (let irqPri = NVIC_GetPriority irqNum s;
             basepri = get_BASEPRI s
         in if 3 \<le> cortex_m \<and> basepri \<noteq> 0 \<and> irqPri \<ge> drop_bit BASEPRI_START_BIT basepri
            then Some True
            else
              (let activeIrq = drop_bit SCB_ICSR_VECTACTIVE_Pos (icsr s AND SCB_ICSR_VECTACTIVE_Msk)
               in if activeIrq \<noteq> 0
                     \<and> irqPri \<ge> NVIC_GetPriority (IRQn_Type irqn_bits (uint (activeIrq - 16))) s
                  then Some True
                  else Some False)))"

definition IRQ_AreAllIRQnsDisabled :: "nat \<Rightarrow> hw \<Rightarrow> bool" where
  "IRQ_AreAllIRQnsDisabled cortex_m s =
     (if 3 \<le> cortex_m
      then get_PRIMASK s AND 1 = 1 \<or> get_BASEPRI s \<ge> basePriLevel_shifted s
      else get_PRIMASK s AND 1 = 1)"

section \<open>Runs of calls\<close>

text \<open>
  A properly nested run: \<open>Section body\<close> is one Enter, the items of \<open>body\<close> one after
  the other, and the Exit that receives what that Enter returned. An item of a body is
  a nested section or a call of \<^verbatim>\<open>BASEPRI_SetPriorityLevelThreshold\<close>, which changes the
  configured threshold while the enclosing sections are open.
\<close>

datatype nesting = Section "nesting list" | SetThreshold "8 word"

fun PRIMASK_nested :: "nat \<Rightarrow> nesting \<Rightarrow> hw \<Rightarrow> hw"
  and PRIMASK_nested_seq :: "nat \<Rightarrow> nesting list \<Rightarrow> hw \<Rightarrow> hw" where
  "PRIMASK_nested cortex_m (Section body) s =
     (let (irqState, s1) = PRIMASK_EnterCriticalSection s
      in PRIMASK_ExitCriticalSection irqState (PRIMASK_nested_seq cortex_m body s1))"
| "PRIMASK_nested cortex_m (SetThreshold l) s =
     snd (BASEPRI_SetPriorityLevelThreshold cortex_m l s)"
| "PRIMASK_nested_seq cortex_m [] s = s"
| "PRIMASK_nested_seq cortex_m (x # xs) s =
     PRIMASK_nested_seq cortex_m xs (PRIMASK_nested cortex_m x s)"

fun BASEPRI_nested :: "nat \<Rightarrow> nesting \<Rightarrow> hw \<Rightarrow> hw"
  and BASEPRI_nested_seq :: "nat \<Rightarrow> nesting list \<Rightarrow> hw \<Rightarrow> hw" where
  "BASEPRI_nested cortex_m (Section body) s =
     (let (irqState, s1) = BASEPRI_EnterInterruptsDisabledByThresholdSection cortex_m s
      in BASEPRI_ExitInterruptsDisabledByThresholdSection cortex_m irqState
           (BASEPRI_nested_seq cortex_m body s1))"
| "BASEPRI_nested cortex_m (SetThreshold l) s =
     snd (BASEPRI_SetPriorityLevelThreshold cortex_m l s)"
| "BASEPRI_nested_seq cortex_m [] s = s"
| "BASEPRI_nested_seq cortex_m (x # xs) s =
     BASEPRI_nested_seq cortex_m xs (BASEPRI_nested cortex_m x s)"

text \<open>\<open>deep n\<close> is \<open>n\<close> sections, each inside the one before.\<close>

fun deep :: "nat \<Rightarrow> nesting list" where
  "deep 0 = []"
| "deep (Suc n) = [Section (deep n)]"

text \<open>A run of calls of the setter, one requested level after the other.\<close>

fun set_thresholds :: "nat \<Rightarrow> 8 word list \<Rightarrow> hw \<Rightarrow> hw" where
  "set_thresholds cortex_m [] s = s"
| "set_thresholds cortex_m (l # ls) s =
     set_thresholds cortex_m ls (snd (BASEPRI_SetPriorityLevelThreshold cortex_m l s))"

section \<open>Observations\<close>

text \<open>The two masking registers.\<close>

definition masking_registers :: "hw \<Rightarrow> bool \<times> 4 word" where
  "masking_registers s = (primask s, basepri s)"

text \<open>Everything but the trace.\<close>

definition regs :: "hw \<Rightarrow> bool \<times> 4 word \<times> NVIC_Mask_t \<times> 32 word \<times> (int \<Rightarrow> 32 word) \<times> 8 word" where
  "regs s = (primask s, basepri s, nvic_enable s, icsr s, priority s, basePriLevel s)"

text \<open>
  The machine after reset: PRIMASK and BASEPRI clear, every line disabled and at
  priority 0, thread mode, \<^verbatim>\<open>basePriLevel\<close> at its initialiser, nothing executed yet.
\<close>

definition reset_state :: "nat \<Rightarrow> hw" where
  "reset_state cortex_m =
     \<lparr>primask = False, basepri = 0, nvic_enable = replicate MAX_NVIC_REG_WORDS 0, icsr = 0,
      priority = (\<lambda>irqNum. 0), basePriLevel = basePriLevel_init cortex_m, trace = []\<rparr>"

text \<open>
  The scenario of section 8 of the specification: lines 33 and 34 enabled, line 33 at
  priority 6 and every other line at priority 3, the threshold set to 5, a threshold
  section entered.
\<close>

definition threshold_scenario :: hw where
  "threshold_scenario =
     snd (BASEPRI_EnterInterruptsDisabledByThresholdSection 4
       (snd (BASEPRI_SetPriorityLevelThreshold 4 5
         ((NVIC_EnableSpecificInterrupts [0, 6, 0, 0, 0, 0, 0, 0] (reset_state 4))
            \<lparr>priority := (\<lambda>irqNum. if irqNum = 33 then 6 else 3)\<rparr>))))"

text \<open>
  A threshold register left over from an earlier configuration: line 0 enabled, every
  line at priority 2, the threshold set to 1 and written to BASEPRI by
  \<^verbatim>\<open>BASEPRI_DisableIrqByThreshold\<close>, then the threshold set to 3.
\<close>

definition stale_threshold_scenario :: hw where
  "stale_threshold_scenario =
     snd (BASEPRI_SetPriorityLevelThreshold 4 3
       (BASEPRI_DisableIrqByThreshold 4
         (snd (BASEPRI_SetPriorityLevelThreshold 4 1
           ((NVIC_EnableSpecificInterrupts [1, 0, 0, 0, 0, 0, 0, 0] (reset_state 4))
              \<lparr>priority := (\<lambda>irqNum. 2)\<rparr>)))))"

section \<open>Words and casts\<close>

lemma basepri_field_roundtrip:
  "ucast (drop_bit 4 (push_bit 4 (ucast (f::4 word) :: 32 word))) = f"
  by (rule bit_word_eqI) (auto simp: bit_simps)

lemma unat_ucast_8_32: "unat (ucast (l::8 word) :: 32 word) = unat l"
proof -
  have "unat l < 2 ^ 8"
    using unsigned_less [of l] by simp
  then have "unat l < 2 ^ 32"
    by simp
  then show ?thesis
    by (simp add: unsigned_ucast_eq take_bit_nat_eq_self)
qed

lemma IS_INT_LVL_VALID_iff:
  "IS_INT_LVL_VALID c l \<longleftrightarrow> 0 < l \<and> l \<le> (if 3 \<le> c then 7 else 3)"
  unfolding IS_INT_LVL_VALID_def INTERRUPT_HIGHEST_PRIORITY_def INTERRUPT_LOWEST_PRIORITY_def
  by (simp add: word_less_nat_alt word_le_nat_alt unat_ucast_8_32)

lemma int16_t_id: "- 32768 \<le> n \<Longrightarrow> n < 32768 \<Longrightarrow> int16_t n = n"
  unfolding int16_t_def by (simp add: signed_of_int signed_take_bit_int_eq_self)

lemma exception_not_interrupt: "IS_EXCEPTION_NUM n \<Longrightarrow> \<not> IS_INTERRUPT_NUM n"
  by (simp add: IS_EXCEPTION_NUM_def IS_INTERRUPT_NUM_def)

lemma or_and_not: "((x::32 word) OR b) AND NOT b = x AND NOT b"
  by (rule bit_word_eqI) (auto simp: bit_simps)

lemma and_not_id: "(x::32 word) AND b = 0 \<Longrightarrow> x AND NOT b = x"
  by (rule bit_word_eqI) (auto simp: bit_simps bit_eq_iff)

lemma single_bit_test: "((w::32 word) AND push_bit k 1 = 0) \<longleftrightarrow> \<not> bit w k"
  by (simp add: and_exp_eq_0_iff_not_bit)

lemma uint8_small: "0 \<le> n \<Longrightarrow> n < 0xF0 \<Longrightarrow> unat (uint8_t n) = nat n"
  unfolding uint8_t_def
  by (simp add: unat_eq_nat_uint uint_word_of_int_eq take_bit_int_eq_self del: nat_uint_eq)

lemma word_index: "0 \<le> n \<Longrightarrow> n < 0xF0 \<Longrightarrow> unat (drop_bit 5 (uint8_t n)) = nat n div 32"
proof -
  assume n: "0 \<le> n" "n < 0xF0"
  have "unat (drop_bit 5 (uint8_t n)) = drop_bit 5 (unat (uint8_t n))"
    by (rule unat_drop_bit_eq)
  also have "\<dots> = drop_bit 5 (nat n)"
    using uint8_small [OF n] by simp
  also have "\<dots> = nat n div 32"
    by (simp add: drop_bit_eq_div)
  finally show ?thesis .
qed

lemma bit_position: "0 \<le> n \<Longrightarrow> n < 0xF0 \<Longrightarrow> unat (uint8_t n AND 0x1F) = nat n mod 32"
  using take_bit_eq_mask [of 5 "nat n"]
  by (simp add: unsigned_and_eq uint8_small take_bit_eq_mod mask_eq_exp_minus_1)

lemma interrupt_number: "0 \<le> n \<Longrightarrow> n < 0xF0 \<Longrightarrow> IS_INTERRUPT_NUM n"
  by (simp add: IS_INTERRUPT_NUM_def int16_t_id)

lemma bit_or_single: "bit ((x::32 word) OR 2 ^ k) i = (bit x i \<or> (i = k \<and> k < 32))"
  by (auto simp: bit_simps)

lemma bit_and_not_single: "bit ((x::32 word) AND NOT (2 ^ k)) i = (bit x i \<and> i \<noteq> k)"
  by (auto simp: bit_simps dest: bit_imp_le_length)

lemma and_not_single_id: "((x::32 word) AND NOT (2 ^ k) = x) = (\<not> bit x k)"
proof
  assume "x AND NOT (2 ^ k) = x"
  then have "bit (x AND NOT (2 ^ k)) k = bit x k"
    by simp
  then show "\<not> bit x k"
    by (simp add: bit_and_not_single)
next
  assume "\<not> bit x k"
  then show "x AND NOT (2 ^ k) = x"
    by (intro bit_word_eqI) (auto simp: bit_and_not_single)
qed

section \<open>Evaluation\<close>

lemma replicate_words: "replicate MAX_NVIC_REG_WORDS x = [x, x, x, x, x, x, x, x]"
  by (simp add: MAX_NVIC_REG_WORDS_def eval_nat_numeral)

lemma replicate_8: "replicate 8 x = [x, x, x, x, x, x, x, x]"
  by (simp add: eval_nat_numeral)


lemmas platform_defs =
  get_PRIMASK_def disable_irq_def enable_irq_def get_BASEPRI_def set_BASEPRI_def ISB_def
  read_ISER_def read_ICER_def write_ISER_def write_ICER_def NVIC_GetPriority_def
  BASEPRI_START_BIT_def NVIC_PRIO_BITS_def basePriLevel_shifted_def
  SCB_ICSR_VECTACTIVE_Msk_def SCB_ICSR_VECTACTIVE_Pos_def MemoryManagement_IRQn_def
  SVCall_IRQn_def reset_state_def basePriLevel_init_def replicate_words

lemmas section_defs =
  PRIMASK_EnterCriticalSection_def PRIMASK_ExitCriticalSection_def
  PRIMASK_EnterNoInterruptsSection_def PRIMASK_ExitNoInterruptsSection_def
  NO_INTERRUPTS_SECTION_def Let_def

section \<open>Nested sections\<close>

lemma PRIMASK_exit_enter:
  "masking_registers X = masking_registers (snd (PRIMASK_EnterCriticalSection s)) \<Longrightarrow>
   masking_registers (PRIMASK_ExitCriticalSection (fst (PRIMASK_EnterCriticalSection s)) X)
     = masking_registers s"
  by (auto simp: masking_registers_def PRIMASK_EnterCriticalSection_def
      PRIMASK_ExitCriticalSection_def get_PRIMASK_def disable_irq_def enable_irq_def Let_def)

lemma BASEPRI_exit_enter:
  "masking_registers X
     = masking_registers (snd (BASEPRI_EnterInterruptsDisabledByThresholdSection c s)) \<Longrightarrow>
   masking_registers (BASEPRI_ExitInterruptsDisabledByThresholdSection c
          (fst (BASEPRI_EnterInterruptsDisabledByThresholdSection c s)) X) = masking_registers s"
proof (cases "3 \<le> c")
  case True
  assume "masking_registers X
     = masking_registers (snd (BASEPRI_EnterInterruptsDisabledByThresholdSection c s))"
  with True show ?thesis
    by (simp add: BASEPRI_EnterInterruptsDisabledByThresholdSection_def
        BASEPRI_ExitInterruptsDisabledByThresholdSection_def Let_def masking_registers_def
        set_BASEPRI_def get_BASEPRI_def BASEPRI_START_BIT_def NVIC_PRIO_BITS_def
        basepri_field_roundtrip)
next
  case False
  assume "masking_registers X
     = masking_registers (snd (BASEPRI_EnterInterruptsDisabledByThresholdSection c s))"
  with False show ?thesis
    by (simp add: BASEPRI_EnterInterruptsDisabledByThresholdSection_def
        BASEPRI_ExitInterruptsDisabledByThresholdSection_def PRIMASK_exit_enter)
qed

lemma SetThreshold_masking:
  "masking_registers (snd (BASEPRI_SetPriorityLevelThreshold c l s)) = masking_registers s"
  by (simp add: BASEPRI_SetPriorityLevelThreshold_def masking_registers_def)

lemma PRIMASK_nested_masking:
  "masking_registers (PRIMASK_nested c t s) = masking_registers s"
  "masking_registers (PRIMASK_nested_seq c ts s) = masking_registers s"
proof (induction c t s and c ts s rule: PRIMASK_nested_PRIMASK_nested_seq.induct)
  case (1 c body s)
  obtain irqState s1 where e: "PRIMASK_EnterCriticalSection s = (irqState, s1)"
    by (cases "PRIMASK_EnterCriticalSection s")
  have "masking_registers (PRIMASK_nested_seq c body s1) = masking_registers s1"
    using 1 [OF refl e [symmetric]] .
  then show ?case
    using PRIMASK_exit_enter [of "PRIMASK_nested_seq c body s1" s] by (simp add: e)
next
  case (2 c l s)
  then show ?case by (simp add: SetThreshold_masking)
next
  case (3 c s)
  then show ?case by simp
next
  case (4 c x xs s)
  then show ?case by simp
qed

lemma BASEPRI_nested_masking:
  "masking_registers (BASEPRI_nested c t s) = masking_registers s"
  "masking_registers (BASEPRI_nested_seq c ts s) = masking_registers s"
proof (induction c t s and c ts s rule: BASEPRI_nested_BASEPRI_nested_seq.induct)
  case (1 c body s)
  obtain irqState s1
    where e: "BASEPRI_EnterInterruptsDisabledByThresholdSection c s = (irqState, s1)"
    by (cases "BASEPRI_EnterInterruptsDisabledByThresholdSection c s")
  have "masking_registers (BASEPRI_nested_seq c body s1) = masking_registers s1"
    using 1 [OF refl e [symmetric]] .
  then show ?case
    using BASEPRI_exit_enter [of "BASEPRI_nested_seq c body s1" c s] by (simp add: e)
next
  case (2 c l s)
  then show ?case by (simp add: SetThreshold_masking)
next
  case (3 c s)
  then show ?case by simp
next
  case (4 c x xs s)
  then show ?case by simp
qed

text \<open>
  Claim C4. For every nesting depth and every initial state of the masking registers, a
  properly nested run of Enter and Exit calls, each Exit receiving what its Enter
  returned, leaves PRIMASK and BASEPRI at the outermost Exit exactly as they were before
  the outermost Enter, for the PRIMASK pair and for the BASEPRI pair. The bodies may
  change the configured threshold: Exit writes back the value read at Enter and does not
  recompute it from \<^verbatim>\<open>basePriLevel\<close>.
\<close>

theorem nested_sections_restore:
  "masking_registers (PRIMASK_nested c (Section body) s) = masking_registers s
   \<and> masking_registers (BASEPRI_nested c (Section body) s) = masking_registers s
   \<and> masking_registers (PRIMASK_nested_seq c (deep n) s) = masking_registers s
   \<and> masking_registers (BASEPRI_nested_seq c (deep n) s) = masking_registers s"
  by (simp only: PRIMASK_nested_masking BASEPRI_nested_masking)

text \<open>
  A threshold section entered at BASEPRI = 0x70 with two sections inside it and two
  changes of the configured threshold: the writes to BASEPRI in order, and 0x70 back at
  the end.
\<close>

theorem nested_sections_restore_witness:
  "masking_registers
     (BASEPRI_nested 4 (Section [SetThreshold 5, Section [SetThreshold 2], Section []])
        ((reset_state 4)\<lparr>basepri := 7\<rparr>))
     = (False, 7)
   \<and> trace (BASEPRI_nested 4 (Section [SetThreshold 5, Section [SetThreshold 2], Section []])
        ((reset_state 4)\<lparr>basepri := 7\<rparr>))
     = [BASEPRI_write 0x30, BASEPRI_write 0x50, BASEPRI_write 0x30, BASEPRI_write 0x20,
        BASEPRI_write 0x30, BASEPRI_write 0x70]"
  using nested_sections_restore [of 4 "[SetThreshold 5, Section [SetThreshold 2], Section []]"
      "(reset_state 4)\<lparr>basepri := 7\<rparr>" 0]
  by (simp add: masking_registers_def reset_state_def
      BASEPRI_EnterInterruptsDisabledByThresholdSection_def
      BASEPRI_ExitInterruptsDisabledByThresholdSection_def BASEPRI_SetPriorityLevelThreshold_def
      IS_INT_LVL_VALID_iff set_BASEPRI_def get_BASEPRI_def basePriLevel_shifted_def
      BASEPRI_START_BIT_def NVIC_PRIO_BITS_def basePriLevel_init_def Let_def)

section \<open>The configured threshold\<close>

lemma Set_fst:
  "fst (BASEPRI_SetPriorityLevelThreshold c l s) = (3 \<le> c \<and> 0 < l \<and> l \<le> 7)"
  by (simp add: BASEPRI_SetPriorityLevelThreshold_def IS_INT_LVL_VALID_iff)

lemma Set_snd:
  "snd (BASEPRI_SetPriorityLevelThreshold c l s)
     = (if 3 \<le> c \<and> 0 < l \<and> l \<le> 7 then s\<lparr>basePriLevel := l\<rparr> else s)"
  by (simp add: BASEPRI_SetPriorityLevelThreshold_def IS_INT_LVL_VALID_iff)

lemma set_thresholds_get:
  "BASEPRI_GetPriorityLevelThreshold (set_thresholds c ls s) = BASEPRI_GetPriorityLevelThreshold s
   \<or> (\<exists>l \<in> set ls. fst (BASEPRI_SetPriorityLevelThreshold c l s)
         \<and> BASEPRI_GetPriorityLevelThreshold (set_thresholds c ls s) = sint l)"
proof (induction ls arbitrary: s)
  case Nil
  then show ?case by simp
next
  case (Cons l ls)
  show ?case
  proof (cases "3 \<le> c \<and> 0 < l \<and> l \<le> 7")
    case True
    then show ?thesis
      using Cons.IH [of "s\<lparr>basePriLevel := l\<rparr>"]
      by (auto simp: Set_snd Set_fst BASEPRI_GetPriorityLevelThreshold_def)
  next
    case False
    then show ?thesis
      using Cons.IH [of s] by (auto simp: Set_snd Set_fst)
  qed
qed

text \<open>
  Claim C6. With the threshold register (\<open>3 \<le> c\<close>) the setter returns true exactly for
  the levels in (0, 7]; without it the setter always returns false; a rejected request
  leaves the state untouched and an accepted one is what the getter returns next. After
  any run of setter calls from the reset state the getter returns the initialiser (3, or
  the sentinel -1) or one of the accepted levels of the run.
\<close>

theorem threshold_setter_validates:
  "(3 \<le> c \<longrightarrow> fst (BASEPRI_SetPriorityLevelThreshold c l s) = (0 < l \<and> l \<le> 7))
   \<and> (c < 3 \<longrightarrow> \<not> fst (BASEPRI_SetPriorityLevelThreshold c l s))
   \<and> (\<not> fst (BASEPRI_SetPriorityLevelThreshold c l s)
        \<longrightarrow> snd (BASEPRI_SetPriorityLevelThreshold c l s) = s)
   \<and> (fst (BASEPRI_SetPriorityLevelThreshold c l s)
        \<longrightarrow> BASEPRI_GetPriorityLevelThreshold (snd (BASEPRI_SetPriorityLevelThreshold c l s))
              = sint l)
   \<and> (BASEPRI_GetPriorityLevelThreshold (set_thresholds c ls (reset_state c))
        = (if 3 \<le> c then 3 else - 1)
      \<or> (\<exists>a \<in> set ls. fst (BASEPRI_SetPriorityLevelThreshold c a s)
            \<and> BASEPRI_GetPriorityLevelThreshold (set_thresholds c ls (reset_state c)) = sint a))"
proof -
  have "BASEPRI_GetPriorityLevelThreshold (reset_state c) = (if 3 \<le> c then 3 else - 1)"
    by (simp add: BASEPRI_GetPriorityLevelThreshold_def reset_state_def basePriLevel_init_def)
  then show ?thesis
    using set_thresholds_get [of c ls "reset_state c"]
    by (auto simp: Set_fst Set_snd BASEPRI_GetPriorityLevelThreshold_def)
qed

text \<open>Levels 5, 0 and 8 on a Cortex-M4, level 2 on a Cortex-M0.\<close>

theorem threshold_setter_validates_witness:
  "fst (BASEPRI_SetPriorityLevelThreshold 4 5 (reset_state 4))
   \<and> \<not> fst (BASEPRI_SetPriorityLevelThreshold 4 0 (reset_state 4))
   \<and> \<not> fst (BASEPRI_SetPriorityLevelThreshold 4 8 (reset_state 4))
   \<and> \<not> fst (BASEPRI_SetPriorityLevelThreshold 0 2 (reset_state 0))
   \<and> BASEPRI_GetPriorityLevelThreshold (set_thresholds 4 [0, 5, 8] (reset_state 4)) = 5
   \<and> BASEPRI_GetPriorityLevelThreshold (set_thresholds 0 [0, 5, 8] (reset_state 0)) = - 1"
  using threshold_setter_validates [of 4 5 "reset_state 4" "[0, 5, 8]"]
    threshold_setter_validates [of 4 0 "reset_state 4" "[]"]
    threshold_setter_validates [of 4 8 "reset_state 4" "[]"]
    threshold_setter_validates [of 0 2 "reset_state 0" "[0, 5, 8]"]
  by (simp add: Set_snd BASEPRI_GetPriorityLevelThreshold_def reset_state_def
      basePriLevel_init_def)

section \<open>Mask bits\<close>

lemma set_then_clear_word:
  fixes m :: "32 word list"
  shows "(m[w := m ! w OR b])[w := (m[w := m ! w OR b]) ! w AND NOT b] = m[w := m ! w AND NOT b]"
proof (cases "w < length m")
  case True
  then show ?thesis by (simp add: or_and_not)
next
  case False
  then show ?thesis by (simp add: list_update_beyond)
qed

lemma clear_after_set:
  "NVIC_ClearSpecificInterruptInAMask L (NVIC_SetSpecificInterruptInAMask L m)
     = NVIC_ClearSpecificInterruptInAMask L m"
proof (cases "IS_INTERRUPT_NUM L")
  case True
  then show ?thesis
    unfolding NVIC_ClearSpecificInterruptInAMask_def NVIC_SetSpecificInterruptInAMask_def Let_def
    by (simp only: set_then_clear_word if_True)
next
  case False
  then show ?thesis
    by (simp add: NVIC_ClearSpecificInterruptInAMask_def NVIC_SetSpecificInterruptInAMask_def)
qed

lemma set_mask_word:
  assumes "0 \<le> L" and "L < 0xF0"
  shows "NVIC_SetSpecificInterruptInAMask L m
    = m[nat L div 32 := m ! (nat L div 32) OR 2 ^ (nat L mod 32)]"
  using assms
  by (simp add: NVIC_SetSpecificInterruptInAMask_def interrupt_number word_index bit_position
      Let_def)

lemma clear_mask_word:
  assumes "0 \<le> L" and "L < 0xF0"
  shows "NVIC_ClearSpecificInterruptInAMask L m
    = m[nat L div 32 := m ! (nat L div 32) AND NOT (2 ^ (nat L mod 32))]"
  using assms
  by (simp add: NVIC_ClearSpecificInterruptInAMask_def interrupt_number word_index bit_position
      Let_def)

lemma line_word_in_mask: "L < 0xF0 \<Longrightarrow> mask_ok m \<Longrightarrow> nat L div 32 < length m"
  by (simp add: mask_ok_def MAX_NVIC_REG_WORDS_def)

lemma set_mask_bits:
  assumes "0 \<le> L" and "L < 0xF0" and "mask_ok m"
  shows "bit (NVIC_SetSpecificInterruptInAMask L m ! j) i
    = (bit (m ! j) i \<or> (j = nat L div 32 \<and> i = nat L mod 32))"
proof (cases "j = nat L div 32")
  case True
  then show ?thesis
    using line_word_in_mask [OF assms(2,3)]
    by (simp add: set_mask_word [OF assms(1,2)] bit_or_single)
next
  case False
  then show ?thesis
    by (simp add: set_mask_word [OF assms(1,2)])
qed

lemma clear_after_set_bits:
  assumes "0 \<le> L" and "L < 0xF0" and "mask_ok m"
  shows "bit (NVIC_ClearSpecificInterruptInAMask L (NVIC_SetSpecificInterruptInAMask L m) ! j) i
    = (bit (m ! j) i \<and> \<not> (j = nat L div 32 \<and> i = nat L mod 32))"
proof (cases "j = nat L div 32")
  case True
  then show ?thesis
    using line_word_in_mask [OF assms(2,3)]
    by (simp add: clear_after_set clear_mask_word [OF assms(1,2)] bit_and_not_single)
next
  case False
  then show ?thesis
    by (simp add: clear_after_set clear_mask_word [OF assms(1,2)])
qed

lemma clear_after_set_same:
  assumes "0 \<le> L" and "L < 0xF0" and "mask_ok m"
  shows "(NVIC_ClearSpecificInterruptInAMask L (NVIC_SetSpecificInterruptInAMask L m) = m)
    = (\<not> bit (m ! (nat L div 32)) (nat L mod 32))"
  using line_word_in_mask [OF assms(2,3)]
  by (simp add: clear_after_set clear_mask_word [OF assms(1,2)] list_update_same_conv
      and_not_single_id eq_commute [of "m ! (nat L div 32)"])

text \<open>
  Claim C3 as stated, that clearing line \<open>L\<close> after setting it gives the starting mask
  for every starting mask, fails where the bit of \<open>L\<close> is set at the start: line 0 in
  a mask that already holds line 0.
\<close>

theorem clear_after_set_counterexample:
  "IS_INTERRUPT_NUM 0
   \<and> NVIC_ClearSpecificInterruptInAMask 0
        (NVIC_SetSpecificInterruptInAMask 0 [1, 0, 0, 0, 0, 0, 0, 0])
      \<noteq> [1, 0, 0, 0, 0, 0, 0, 0]"
  by (simp add: NVIC_ClearSpecificInterruptInAMask_def NVIC_SetSpecificInterruptInAMask_def
      IS_INTERRUPT_NUM_def int16_t_def uint8_t_def)

text \<open>
  Claim C3, amended. For every starting mask \<open>m\<close> of eight words and every valid
  interrupt line \<open>L\<close>, that is \<open>0 \<le> L < 0xF0\<close>: setting \<open>L\<close> gives a mask of eight
  words in which bit \<open>L mod 32\<close> of word \<open>L div 32\<close> is set and every other bit is as
  in \<open>m\<close>; clearing \<open>L\<close> after setting it gives a mask in which that bit is clear and
  every other bit is as in \<open>m\<close>; and the result is \<open>m\<close> if and only if that bit was
  clear in \<open>m\<close>. For every identifier that is not an interrupt number both operations
  leave the mask unchanged.
\<close>

theorem clear_after_set_amended:
  "(0 \<le> L \<and> L < 0xF0 \<and> mask_ok m \<longrightarrow>
      mask_ok (NVIC_SetSpecificInterruptInAMask L m)
      \<and> bit (NVIC_SetSpecificInterruptInAMask L m ! j) i
          = (bit (m ! j) i \<or> (j = nat L div 32 \<and> i = nat L mod 32))
      \<and> bit (NVIC_ClearSpecificInterruptInAMask L (NVIC_SetSpecificInterruptInAMask L m) ! j) i
          = (bit (m ! j) i \<and> \<not> (j = nat L div 32 \<and> i = nat L mod 32))
      \<and> (NVIC_ClearSpecificInterruptInAMask L (NVIC_SetSpecificInterruptInAMask L m) = m)
          = (\<not> bit (m ! (nat L div 32)) (nat L mod 32)))
   \<and> (\<not> IS_INTERRUPT_NUM K \<longrightarrow>
        NVIC_SetSpecificInterruptInAMask K m = m \<and> NVIC_ClearSpecificInterruptInAMask K m = m)"
proof -
  have "mask_ok (NVIC_SetSpecificInterruptInAMask L m)" if "mask_ok m"
    using that by (simp add: NVIC_SetSpecificInterruptInAMask_def mask_ok_def Let_def)
  moreover have "NVIC_SetSpecificInterruptInAMask K m = m
      \<and> NVIC_ClearSpecificInterruptInAMask K m = m" if "\<not> IS_INTERRUPT_NUM K"
    using that
    by (simp add: NVIC_ClearSpecificInterruptInAMask_def NVIC_SetSpecificInterruptInAMask_def)
  ultimately show ?thesis
    using set_mask_bits [of L m j i] clear_after_set_bits [of L m j i] clear_after_set_same [of L m]
    by blast
qed

text \<open>
  Line 33 in the mask that holds line 0 only, seen at its own bit and at bit 0 of word
  0; line 0 in the same mask, where clearing after setting does not give the mask back;
  and the identifier 240.
\<close>

theorem clear_after_set_amended_witness:
  "mask_ok [1, 0, 0, 0, 0, 0, 0, 0]
   \<and> bit (NVIC_SetSpecificInterruptInAMask 33 [1, 0, 0, 0, 0, 0, 0, 0] ! 1) 1
   \<and> bit (NVIC_SetSpecificInterruptInAMask 33 [1, 0, 0, 0, 0, 0, 0, 0] ! 0) 0
   \<and> \<not> bit (NVIC_ClearSpecificInterruptInAMask 33
              (NVIC_SetSpecificInterruptInAMask 33 [1, 0, 0, 0, 0, 0, 0, 0]) ! 1) 1
   \<and> NVIC_ClearSpecificInterruptInAMask 33
        (NVIC_SetSpecificInterruptInAMask 33 [1, 0, 0, 0, 0, 0, 0, 0]) = [1, 0, 0, 0, 0, 0, 0, 0]
   \<and> NVIC_ClearSpecificInterruptInAMask 0
        (NVIC_SetSpecificInterruptInAMask 0 [1, 0, 0, 0, 0, 0, 0, 0]) \<noteq> [1, 0, 0, 0, 0, 0, 0, 0]
   \<and> \<not> IS_INTERRUPT_NUM 240
   \<and> NVIC_SetSpecificInterruptInAMask 240 [1, 0, 0, 0, 0, 0, 0, 0] = [1, 0, 0, 0, 0, 0, 0, 0]"
proof -
  have a: "mask_ok [1, 0, 0, 0, 0, 0, 0, 0]"
    by (simp add: mask_ok_def MAX_NVIC_REG_WORDS_def)
  have b: "\<not> IS_INTERRUPT_NUM 240"
    by (simp add: IS_INTERRUPT_NUM_def int16_t_def)
  show ?thesis
    using a b clear_after_set_amended [of 33 "[1, 0, 0, 0, 0, 0, 0, 0]" 1 1 240]
      clear_after_set_amended [of 33 "[1, 0, 0, 0, 0, 0, 0, 0]" 0 0 240]
      clear_after_set_amended [of 0 "[1, 0, 0, 0, 0, 0, 0, 0]" 0 0 240]
    by simp
qed

section \<open>Exception numbers\<close>

text \<open>
  Claim C10. For every exception number, and every negative identifier that fits the
  16-bit cast, setting and clearing the line leave the mask unchanged and
  \<^verbatim>\<open>NVIC_IsIRQnDisabled\<close> reports the line as disabled whatever the enable register holds,
  as it does for the identifiers from 0xF0 upwards.
\<close>

theorem exception_numbers_rejected:
  "(IS_EXCEPTION_NUM n \<or> (- 32768 \<le> n \<and> n < 0) \<longrightarrow>
      NVIC_SetSpecificInterruptInAMask n m = m
      \<and> NVIC_ClearSpecificInterruptInAMask n m = m
      \<and> NVIC_IsIRQnDisabled n s)
   \<and> (0xF0 \<le> k \<and> k < 32768 \<longrightarrow> NVIC_IsIRQnDisabled k s)"
proof -
  have "\<not> IS_INTERRUPT_NUM n" if "- 32768 \<le> n" "n < 0"
    using that by (simp add: IS_INTERRUPT_NUM_def int16_t_id)
  moreover have "\<not> IS_INTERRUPT_NUM k" if "0xF0 \<le> k" "k < 32768"
    using that by (simp add: IS_INTERRUPT_NUM_def int16_t_id)
  ultimately show ?thesis
    by (auto simp: NVIC_SetSpecificInterruptInAMask_def NVIC_ClearSpecificInterruptInAMask_def
        NVIC_IsIRQnDisabled_def dest: exception_not_interrupt)
qed

text \<open>SVCall (-5) and the identifier 240, with every line enabled.\<close>

theorem exception_numbers_rejected_witness:
  "IS_EXCEPTION_NUM (- 5)
   \<and> NVIC_SetSpecificInterruptInAMask (- 5) [1, 0, 0, 0, 0, 0, 0, 0] = [1, 0, 0, 0, 0, 0, 0, 0]
   \<and> NVIC_ClearSpecificInterruptInAMask (- 5) [1, 0, 0, 0, 0, 0, 0, 0] = [1, 0, 0, 0, 0, 0, 0, 0]
   \<and> NVIC_IsIRQnDisabled (- 5) (NVIC_EnableSpecificInterrupts (replicate 8 (- 1)) (reset_state 4))
   \<and> NVIC_IsIRQnDisabled 240 (NVIC_EnableSpecificInterrupts (replicate 8 (- 1)) (reset_state 4))"
proof -
  have a: "IS_EXCEPTION_NUM (- 5)"
    by (simp add: IS_EXCEPTION_NUM_def int16_t_def)
  show ?thesis
    using a exception_numbers_rejected [of "- 5" "[1, 0, 0, 0, 0, 0, 0, 0]"
        "NVIC_EnableSpecificInterrupts (replicate 8 (- 1)) (reset_state 4)" 240]
    by simp
qed

section \<open>Blocked lines\<close>

lemma primask_bit: "(get_PRIMASK s AND 1 \<noteq> 0) = primask s" "(get_PRIMASK s AND 1 = 1) = primask s"
  by (simp_all add: get_PRIMASK_def)

lemma get_BASEPRI_field: "drop_bit BASEPRI_START_BIT (get_BASEPRI s) = ucast (basepri s)"
  unfolding get_BASEPRI_def BASEPRI_START_BIT_def NVIC_PRIO_BITS_def
  by (rule bit_word_eqI) (auto simp: bit_simps dest: bit_imp_le_length)

lemma get_BASEPRI_zero: "(get_BASEPRI s = 0) = (basepri s = 0)"
proof
  assume "get_BASEPRI s = 0"
  then have "ucast (drop_bit BASEPRI_START_BIT (get_BASEPRI s)) = (0 :: 4 word)"
    by simp
  then show "basepri s = 0"
    by (simp add: get_BASEPRI_def BASEPRI_START_BIT_def NVIC_PRIO_BITS_def basepri_field_roundtrip)
next
  assume "basepri s = 0"
  then show "get_BASEPRI s = 0"
    by (simp add: get_BASEPRI_def)
qed

lemma line_disabled:
  "0 \<le> n \<Longrightarrow> n < 0xF0 \<Longrightarrow>
   NVIC_IsIRQnDisabled n s = (\<not> bit (nvic_enable s ! (nat n div 32)) (nat n mod 32))"
  by (simp only: NVIC_IsIRQnDisabled_def interrupt_number if_True Let_def read_ISER_def
      word_index bit_position single_bit_test)

lemma IRQn_Type_F0_le: "IRQn_Type b 0xF0 \<le> 0xF0"
proof -
  have "- (2 ^ (b - 1)) \<le> (0 :: int)"
    by simp
  then have "- (2 ^ (b - 1)) \<le> (0xF0 :: int)"
    by linarith
  then show ?thesis
    unfolding IRQn_Type_def by (simp only: signed_take_bit_int_less_eq_self_iff)
qed

lemma IRQn_Type_short: "IRQn_Type 8 0xF0 = - 16"
  by (simp add: IRQn_Type_def signed_take_bit_eq_take_bit_shift take_bit_eq_mod)

lemma IRQn_Type_int: "IRQn_Type 32 0xF0 = 0xF0"
  by (simp add: IRQn_Type_def signed_take_bit_int_eq_self)

lemma assert_range:
  assumes "IRQ_IsIRQnBlocked_assert c b n" and "IRQn_Type b n = n"
  shows "- 12 \<le> n \<and> n < 0xF0"
proof (cases "3 \<le> c")
  case True
  with assms(1) have "- 12 \<le> n" and "n < IRQn_Type b 0xF0"
    by (simp_all add: IRQ_IsIRQnBlocked_assert_def MemoryManagement_IRQn_def)
  then show ?thesis
    using IRQn_Type_F0_le [of b] by simp
next
  case False
  with assms show ?thesis
    by (simp add: IRQ_IsIRQnBlocked_assert_def SVCall_IRQn_def)
qed

lemma line_query:
  assumes "- 12 \<le> n" and "n < 0xF0"
  shows "NVIC_IsIRQnDisabled n s
    = (n < 0 \<or> \<not> bit (nvic_enable s ! (nat n div 32)) (nat n mod 32))"
proof (cases "n < 0")
  case True
  with assms have "\<not> IS_INTERRUPT_NUM n"
    by (simp add: IS_INTERRUPT_NUM_def int16_t_id)
  with True show ?thesis
    by (simp add: NVIC_IsIRQnDisabled_def)
next
  case False
  with assms show ?thesis
    by (simp add: line_disabled)
qed

text \<open>
  When the assertion holds for a value \<open>n\<close> of \<^verbatim>\<open>IRQn_Type\<close>, interrupt or exception
  number, \<^verbatim>\<open>IRQ_IsIRQnBlocked\<close> returns and decides in this order: true if
  PRIMASK is set; otherwise true if \<open>n\<close> is an exception number or the enable bit of
  the line is clear; otherwise (with BASEPRI) true if BASEPRI is non-zero and the
  priority of the line is numerically at or above the priority field of BASEPRI;
  otherwise true if an exception is active and the priority of the line is numerically
  at or above the priority of the active one; otherwise false.
\<close>

lemma blocked_decision_order:
  assumes "IRQ_IsIRQnBlocked_assert c b n" and "IRQn_Type b n = n"
  shows "IRQ_IsIRQnBlocked c b n s =
     Some (if primask s then True
           else if n < 0 \<or> \<not> bit (nvic_enable s ! (nat n div 32)) (nat n mod 32) then True
           else if 3 \<le> c \<and> basepri s \<noteq> 0 \<and> ucast (basepri s) \<le> priority s n then True
           else if icsr s AND 0x1FF \<noteq> 0
                   \<and> priority s (IRQn_Type b (uint ((icsr s AND 0x1FF) - 16))) \<le> priority s n
                then True
           else False)"
proof -
  have n: "- 12 \<le> n" "n < 0xF0"
    using assert_range [OF assms] by simp_all
  show ?thesis
    unfolding IRQ_IsIRQnBlocked_def
    by (simp add: assms(1) primask_bit line_query [OF n] Let_def NVIC_GetPriority_def
        get_BASEPRI_field get_BASEPRI_zero SCB_ICSR_VECTACTIVE_Msk_def SCB_ICSR_VECTACTIVE_Pos_def)
qed

text \<open>
  A line that fails the assertion never gets an answer, and where \<^verbatim>\<open>IRQn_Type\<close> is one
  byte wide and the threshold register exists, \<^verbatim>\<open>(IRQn_Type)0xF0\<close> is -16 and every line
  fails it.
\<close>

lemma failed_assertion_hangs:
  "\<not> IRQ_IsIRQnBlocked_assert c b n \<Longrightarrow> IRQ_IsIRQnBlocked c b n s = None"
  by (simp add: IRQ_IsIRQnBlocked_def)

lemma short_enum_never_returns: "3 \<le> c \<Longrightarrow> IRQ_IsIRQnBlocked c 8 n s = None"
  by (rule failed_assertion_hangs)
     (simp add: IRQ_IsIRQnBlocked_assert_def IRQn_Type_short MemoryManagement_IRQn_def)

lemma threshold_scenario_state:
  "threshold_scenario =
     \<lparr>primask = False, basepri = 5, nvic_enable = [0, 6, 0, 0, 0, 0, 0, 0], icsr = 0,
      priority = (\<lambda>irqNum. if irqNum = 33 then 6 else 3), basePriLevel = 5,
      trace = [PRIMASK_write True, ISER_write [0, 6, 0, 0, 0, 0, 0, 0], PRIMASK_write False,
               BASEPRI_write 0x50]\<rparr>"
  by (simp add: threshold_scenario_def BASEPRI_EnterInterruptsDisabledByThresholdSection_def
      Set_snd NVIC_EnableSpecificInterrupts_def section_defs platform_defs)

lemmas query_defs =
  IRQ_IsIRQnBlocked_def IRQ_IsIRQnBlocked_assert_def IRQn_Type_short IRQn_Type_int
  NVIC_IsIRQnDisabled_def IS_INTERRUPT_NUM_def int16_t_def uint8_t_def

text \<open>
  Claim C5 on a Cortex-M4 build with a one-byte \<^verbatim>\<open>IRQn_Type\<close>, in the scenario of the
  specification (threshold 5, line 33 at priority 6, line 34 at priority 3, both
  enabled): \<^verbatim>\<open>(IRQn_Type)0xF0\<close> is -16, the assertion fails for lines 33 and 34, and
  \<^verbatim>\<open>IRQ_IsIRQnBlocked\<close> never returns. With a four-byte \<^verbatim>\<open>IRQn_Type\<close> it answers as the
  claim says: line 33 is blocked and line 34 is not.
\<close>

theorem blocked_query_never_returns:
  "IRQn_Type 8 0xF0 = - 16
   \<and> \<not> IRQ_IsIRQnBlocked_assert 4 8 33
   \<and> IRQ_IsIRQnBlocked 4 8 33 threshold_scenario = None
   \<and> IRQ_IsIRQnBlocked 4 8 34 threshold_scenario = None
   \<and> IRQ_IsIRQnBlocked 4 32 33 threshold_scenario = Some True
   \<and> IRQ_IsIRQnBlocked 4 32 34 threshold_scenario = Some False"
  by (simp add: threshold_scenario_state query_defs platform_defs)

text \<open>
  An exception number that passes the assertion is reported blocked, since
  \<^verbatim>\<open>NVIC_IsIRQnDisabled\<close> reports it disabled.
\<close>

lemma exception_lines_blocked:
  "IS_EXCEPTION_NUM n \<Longrightarrow> IRQ_IsIRQnBlocked_assert c b n \<Longrightarrow>
   IRQ_IsIRQnBlocked c b n s = Some True"
  by (simp add: IRQ_IsIRQnBlocked_def NVIC_IsIRQnDisabled_def exception_not_interrupt)

lemma shifted_level_nonzero:
  assumes "push_bit 4 (scast (l::8 word) :: 32 word) = 0"
  shows "l = 0"
proof (rule bit_word_eqI)
  fix i
  assume "i < LENGTH(8)"
  moreover from assms have "\<not> bit (push_bit 4 (scast l) :: 32 word) (i + 4)"
    by simp
  ultimately show "bit l i = bit (0 :: 8 word) i"
    by (cases "i = 7") (simp_all add: bit_simps min_def)
qed

lemma threshold_active:
  assumes "IS_INT_LVL_VALID c (basePriLevel s)" and "basePriLevel_shifted s \<le> get_BASEPRI s"
  shows "basepri s \<noteq> 0"
proof
  assume "basepri s = 0"
  then have "get_BASEPRI s = 0"
    by (simp add: get_BASEPRI_zero)
  with assms(2) have "basePriLevel_shifted s = 0"
    by simp
  then have "basePriLevel s = 0"
    by (simp add: basePriLevel_shifted_def BASEPRI_START_BIT_def NVIC_PRIO_BITS_def
        shifted_level_nonzero)
  with assms(1) show False
    by (simp add: IS_INT_LVL_VALID_iff)
qed

text \<open>
  Claim C2 as stated fails, on a build where the assertion of \<^verbatim>\<open>IRQ_IsIRQnBlocked\<close> can
  hold (a four-byte \<^verbatim>\<open>IRQn_Type\<close>): after \<^verbatim>\<open>BASEPRI_DisableIrqByThreshold\<close> with the
  initial threshold 3, \<^verbatim>\<open>IRQ_AreAllIRQnsDisabled\<close> is true, and the enabled line 0 at
  priority 0 is not blocked.
\<close>

theorem all_disabled_counterexample:
  "IRQ_IsIRQnBlocked_assert 4 32 0
   \<and> IRQ_AreAllIRQnsDisabled 4
        (BASEPRI_DisableIrqByThreshold 4
           (NVIC_EnableSpecificInterrupts [1, 0, 0, 0, 0, 0, 0, 0] (reset_state 4)))
   \<and> IRQ_IsIRQnBlocked 4 32 0
        (BASEPRI_DisableIrqByThreshold 4
           (NVIC_EnableSpecificInterrupts [1, 0, 0, 0, 0, 0, 0, 0] (reset_state 4)))
      = Some False"
  by (simp add: IRQ_IsIRQnBlocked_assert_def MemoryManagement_IRQn_def IRQn_Type_int
      IRQ_AreAllIRQnsDisabled_def IRQ_IsIRQnBlocked_def BASEPRI_DisableIrqByThreshold_def
      NVIC_EnableSpecificInterrupts_def NO_INTERRUPTS_SECTION_def
      PRIMASK_EnterNoInterruptsSection_def PRIMASK_ExitNoInterruptsSection_def
      PRIMASK_EnterCriticalSection_def PRIMASK_ExitCriticalSection_def
      get_PRIMASK_def disable_irq_def enable_irq_def write_ISER_def read_ISER_def
      set_BASEPRI_def get_BASEPRI_def basePriLevel_shifted_def BASEPRI_START_BIT_def
      NVIC_PRIO_BITS_def reset_state_def basePriLevel_init_def replicate_words
      NVIC_IsIRQnDisabled_def IS_INTERRUPT_NUM_def int16_t_def uint8_t_def NVIC_GetPriority_def
      SCB_ICSR_VECTACTIVE_Msk_def SCB_ICSR_VECTACTIVE_Pos_def Let_def)

text \<open>
  Claim C2, amended. For every line for which the assertion of \<^verbatim>\<open>IRQ_IsIRQnBlocked\<close>
  holds and every state with a valid configured threshold in which
  \<^verbatim>\<open>IRQ_AreAllIRQnsDisabled\<close> returns true, \<^verbatim>\<open>IRQ_IsIRQnBlocked\<close> returns true, whatever
  the enable bit of the line, provided PRIMASK is set or the priority of the line is
  numerically at or above the priority field of BASEPRI.
\<close>

theorem all_disabled_amended:
  assumes "IRQ_IsIRQnBlocked_assert c b n"
    and "IRQ_AreAllIRQnsDisabled c s"
    and "3 \<le> c \<longrightarrow> IS_INT_LVL_VALID c (basePriLevel s)"
    and "primask s \<or> ucast (basepri s) \<le> priority s n"
  shows "IRQ_IsIRQnBlocked c b n s = Some True"
proof (cases "primask s")
  case True
  with assms(1) show ?thesis
    by (simp add: IRQ_IsIRQnBlocked_def primask_bit)
next
  case False
  with assms(2) have c: "3 \<le> c" and b: "basePriLevel_shifted s \<le> get_BASEPRI s"
    by (auto simp: IRQ_AreAllIRQnsDisabled_def primask_bit split: if_splits)
  from c b assms(3) have "basepri s \<noteq> 0"
    using threshold_active by blast
  with False c assms(1,4) show ?thesis
    by (simp add: IRQ_IsIRQnBlocked_def primask_bit Let_def NVIC_GetPriority_def
        get_BASEPRI_field get_BASEPRI_zero)
qed

text \<open>Line 33 at priority 6 under BASEPRI = 0x50.\<close>

theorem all_disabled_amended_witness:
  "IRQ_IsIRQnBlocked_assert 4 32 33
   \<and> IRQ_AreAllIRQnsDisabled 4 threshold_scenario
   \<and> IS_INT_LVL_VALID 4 (basePriLevel threshold_scenario)
   \<and> \<not> primask threshold_scenario
   \<and> ucast (basepri threshold_scenario) \<le> priority threshold_scenario 33
   \<and> IRQ_IsIRQnBlocked 4 32 33 threshold_scenario = Some True"
proof -
  have a: "IRQ_IsIRQnBlocked_assert 4 32 33"
    by (simp add: IRQ_IsIRQnBlocked_assert_def MemoryManagement_IRQn_def IRQn_Type_int)
  have b: "IRQ_AreAllIRQnsDisabled 4 threshold_scenario"
    by (simp add: IRQ_AreAllIRQnsDisabled_def threshold_scenario_state platform_defs)
  have c: "IS_INT_LVL_VALID 4 (basePriLevel threshold_scenario)"
    by (simp add: IS_INT_LVL_VALID_iff threshold_scenario_state)
  have d: "\<not> primask threshold_scenario"
    "ucast (basepri threshold_scenario) \<le> priority threshold_scenario 33"
    by (simp_all add: threshold_scenario_state)
  show ?thesis
    using a b c d all_disabled_amended [of 4 32 33 threshold_scenario] by simp
qed

section \<open>Trigger\<close>

lemma stale_threshold_scenario_state:
  "stale_threshold_scenario =
     \<lparr>primask = False, basepri = 1, nvic_enable = [1, 0, 0, 0, 0, 0, 0, 0], icsr = 0,
      priority = (\<lambda>irqNum. 2), basePriLevel = 3,
      trace = [PRIMASK_write True, ISER_write [1, 0, 0, 0, 0, 0, 0, 0], PRIMASK_write False,
               BASEPRI_write 0x10]\<rparr>"
  by (simp add: stale_threshold_scenario_def BASEPRI_DisableIrqByThreshold_def Set_snd
      NVIC_EnableSpecificInterrupts_def section_defs platform_defs)

text \<open>
  Claim C8 as stated fails for the threshold trigger. In \<open>stale_threshold_scenario\<close>
  BASEPRI is 0x10 and masks: \<^verbatim>\<open>IRQ_IsIRQnBlocked\<close> reports the enabled line 0 at
  priority 2 as blocked, with PRIMASK clear and no exception active. The trigger changes
  nothing and writes nothing.
\<close>

theorem trigger_counterexample:
  "get_BASEPRI stale_threshold_scenario = 0x10
   \<and> \<not> primask stale_threshold_scenario
   \<and> icsr stale_threshold_scenario = 0
   \<and> \<not> NVIC_IsIRQnDisabled 0 stale_threshold_scenario
   \<and> IRQ_IsIRQnBlocked 4 32 0 stale_threshold_scenario = Some True
   \<and> BASEPRI_TriggerPendingInterruptsByThreshold 4 stale_threshold_scenario
      = stale_threshold_scenario"
  by (simp add: stale_threshold_scenario_state BASEPRI_TriggerPendingInterruptsByThreshold_def
      IRQ_IsIRQnBlocked_def IRQ_IsIRQnBlocked_assert_def IRQn_Type_int NVIC_IsIRQnDisabled_def
      IS_INTERRUPT_NUM_def int16_t_def uint8_t_def platform_defs)

text \<open>
  Claim C8, amended. \<^verbatim>\<open>PRIMASK_TriggerPendingInterrupts\<close> with PRIMASK set clears PRIMASK,
  then executes the barrier, then sets PRIMASK, and leaves every register as it was;
  with PRIMASK clear it writes nothing. \<^verbatim>\<open>BASEPRI_TriggerPendingInterruptsByThreshold\<close>
  with BASEPRI numerically at or above the configured threshold, shifted into the
  priority field, writes 0 to BASEPRI, then executes the barrier, then writes back the
  value read at entry, and leaves every register as it was; with BASEPRI below that
  value, zero or not, it writes nothing. Without BASEPRI it is the PRIMASK trigger.
\<close>

theorem trigger_amended:
  "(primask s \<longrightarrow>
      PRIMASK_TriggerPendingInterrupts s
        = s\<lparr>trace := trace s @ [PRIMASK_write False, Barrier, PRIMASK_write True]\<rparr>)
   \<and> (\<not> primask s \<longrightarrow> PRIMASK_TriggerPendingInterrupts s = s)
   \<and> (3 \<le> c \<and> basePriLevel_shifted s \<le> get_BASEPRI s \<longrightarrow>
        BASEPRI_TriggerPendingInterruptsByThreshold c s
          = s\<lparr>trace := trace s @ [BASEPRI_write 0, Barrier, BASEPRI_write (get_BASEPRI s)]\<rparr>)
   \<and> (3 \<le> c \<and> \<not> basePriLevel_shifted s \<le> get_BASEPRI s \<longrightarrow>
        BASEPRI_TriggerPendingInterruptsByThreshold c s = s)
   \<and> (c < 3 \<longrightarrow>
        BASEPRI_TriggerPendingInterruptsByThreshold c s = PRIMASK_TriggerPendingInterrupts s)"
proof -
  have "ucast (drop_bit 4 (get_BASEPRI s)) = basepri s"
    by (simp add: get_BASEPRI_def BASEPRI_START_BIT_def NVIC_PRIO_BITS_def basepri_field_roundtrip)
  then have "set_BASEPRI (get_BASEPRI s) (ISB (set_BASEPRI 0 s))
      = s\<lparr>trace := trace s @ [BASEPRI_write 0, Barrier, BASEPRI_write (get_BASEPRI s)]\<rparr>"
    by (simp add: set_BASEPRI_def ISB_def BASEPRI_START_BIT_def NVIC_PRIO_BITS_def)
  moreover have "primask s \<Longrightarrow> disable_irq (ISB (enable_irq s))
      = s\<lparr>trace := trace s @ [PRIMASK_write False, Barrier, PRIMASK_write True]\<rparr>"
    by (simp add: disable_irq_def enable_irq_def ISB_def)
  ultimately show ?thesis
    by (simp add: PRIMASK_TriggerPendingInterrupts_def
        BASEPRI_TriggerPendingInterruptsByThreshold_def primask_bit Let_def)
qed

text \<open>Both triggers, masked and unmasked, and the threshold trigger on a Cortex-M0.\<close>

theorem trigger_amended_witness:
  "PRIMASK_TriggerPendingInterrupts (PRIMASK_DisableIrq (reset_state 4))
     = (reset_state 4)\<lparr>primask := True,
         trace := [PRIMASK_write True, PRIMASK_write False, Barrier, PRIMASK_write True]\<rparr>
   \<and> PRIMASK_TriggerPendingInterrupts (reset_state 4) = reset_state 4
   \<and> BASEPRI_TriggerPendingInterruptsByThreshold 4 (BASEPRI_DisableIrqByThreshold 4 (reset_state 4))
     = (reset_state 4)\<lparr>basepri := 3,
         trace := [BASEPRI_write 0x30, BASEPRI_write 0, Barrier, BASEPRI_write 0x30]\<rparr>
   \<and> BASEPRI_TriggerPendingInterruptsByThreshold 4 (reset_state 4) = reset_state 4
   \<and> BASEPRI_TriggerPendingInterruptsByThreshold 0 (PRIMASK_DisableIrq (reset_state 0))
     = (reset_state 0)\<lparr>primask := True,
         trace := [PRIMASK_write True, PRIMASK_write False, Barrier, PRIMASK_write True]\<rparr>"
  using trigger_amended [of "PRIMASK_DisableIrq (reset_state 4)" 4]
    trigger_amended [of "reset_state 4" 4]
    trigger_amended [of "BASEPRI_DisableIrqByThreshold 4 (reset_state 4)" 4]
    trigger_amended [of "PRIMASK_DisableIrq (reset_state 0)" 0]
  by (simp add: PRIMASK_DisableIrq_def BASEPRI_DisableIrqByThreshold_def platform_defs)

section \<open>Specific lines\<close>

text \<open>
  Claim C1 at lines 0 and 1 enabled and \<open>d\<close> = line 1: Enter returns the snapshot and
  leaves line 0 enabled; Exit with the snapshot writes it to the clear-enable register,
  and no line is enabled afterwards.
\<close>

theorem specific_section_exit_clears:
  "nvic_enable (NVIC_EnableSpecificInterrupts [3, 0, 0, 0, 0, 0, 0, 0] (reset_state 4))
     = [3, 0, 0, 0, 0, 0, 0, 0]
   \<and> fst (NVIC_EnterSpecificInterruptDisabledSection [2, 0, 0, 0, 0, 0, 0, 0]
        (NVIC_EnableSpecificInterrupts [3, 0, 0, 0, 0, 0, 0, 0] (reset_state 4)))
     = [3, 0, 0, 0, 0, 0, 0, 0]
   \<and> nvic_enable (snd (NVIC_EnterSpecificInterruptDisabledSection [2, 0, 0, 0, 0, 0, 0, 0]
        (NVIC_EnableSpecificInterrupts [3, 0, 0, 0, 0, 0, 0, 0] (reset_state 4))))
     = [1, 0, 0, 0, 0, 0, 0, 0]
   \<and> nvic_enable (NVIC_ExitSpecificInterruptDisabledSection
        (fst (NVIC_EnterSpecificInterruptDisabledSection [2, 0, 0, 0, 0, 0, 0, 0]
           (NVIC_EnableSpecificInterrupts [3, 0, 0, 0, 0, 0, 0, 0] (reset_state 4))))
        (snd (NVIC_EnterSpecificInterruptDisabledSection [2, 0, 0, 0, 0, 0, 0, 0]
           (NVIC_EnableSpecificInterrupts [3, 0, 0, 0, 0, 0, 0, 0] (reset_state 4)))))
     = [0, 0, 0, 0, 0, 0, 0, 0]"
  by (simp add: NVIC_EnableSpecificInterrupts_def NVIC_EnterSpecificInterruptDisabledSection_def
      NVIC_ExitSpecificInterruptDisabledSection_def NVIC_DisableSpecificInterrupts_def
      section_defs platform_defs)

lemma NO_INTERRUPTS_SECTION_enable:
  "nvic_enable (snd (NO_INTERRUPTS_SECTION f s)) = nvic_enable (snd (f (disable_irq s)))"
  by (simp add: section_defs enable_irq_def case_prod_unfold)

lemma NO_INTERRUPTS_SECTION_result:
  "fst (NO_INTERRUPTS_SECTION f s) = fst (f (disable_irq s))"
  by (simp add: section_defs case_prod_unfold)

lemma and_not_and_not: "((x::32 word) AND NOT y) AND NOT x = 0"
  by (rule bit_word_eqI) (auto simp: bit_simps)

lemma clear_twice:
  "map2 (\<lambda>e w. e AND NOT w) (map2 (\<lambda>e w. e AND NOT w) e d) e = replicate (min (length e) (length d)) (0 :: 32 word)"
  by (induction e d rule: list_induct2') (simp_all add: and_not_and_not)

text \<open>For every state and every \<open>d\<close>, Enter followed by Exit leaves no line enabled.\<close>

lemma specific_section_enter_exit:
  "nvic_enable (NVIC_ExitSpecificInterruptDisabledSection
      (fst (NVIC_EnterSpecificInterruptDisabledSection d s))
      (snd (NVIC_EnterSpecificInterruptDisabledSection d s)))
   = replicate (min (length (nvic_enable s)) (length d)) 0"
  by (simp add: NVIC_ExitSpecificInterruptDisabledSection_def NVIC_DisableSpecificInterrupts_def
      NVIC_EnterSpecificInterruptDisabledSection_def NO_INTERRUPTS_SECTION_enable
      NO_INTERRUPTS_SECTION_result Let_def platform_defs clear_twice)

section \<open>The loops over the mask words\<close>

lemma disabled_loop_from:
  "disabled_loop i m e True = (\<forall>j. i \<le> j \<and> j < MAX_NVIC_REG_WORDS \<longrightarrow> m ! j AND e ! j = 0)"
proof (induction i m e True rule: disabled_loop.induct)
  case (1 i m e)
  show ?case
  proof (cases "i < MAX_NVIC_REG_WORDS")
    case False
    then show ?thesis by auto
  next
    case True
    show ?thesis
    proof (cases "m ! i AND e ! i = 0")
      case z: True
      have "(\<forall>j. i \<le> j \<and> j < MAX_NVIC_REG_WORDS \<longrightarrow> m ! j AND e ! j = 0)
          = (\<forall>j. i + 1 \<le> j \<and> j < MAX_NVIC_REG_WORDS \<longrightarrow> m ! j AND e ! j = 0)"
      proof (intro iffI allI impI)
        fix j
        assume "\<forall>j. i \<le> j \<and> j < MAX_NVIC_REG_WORDS \<longrightarrow> m ! j AND e ! j = 0"
          and "i + 1 \<le> j \<and> j < MAX_NVIC_REG_WORDS"
        then show "m ! j AND e ! j = 0" by simp
      next
        fix j
        assume a: "\<forall>j. i + 1 \<le> j \<and> j < MAX_NVIC_REG_WORDS \<longrightarrow> m ! j AND e ! j = 0"
          and b: "i \<le> j \<and> j < MAX_NVIC_REG_WORDS"
        show "m ! j AND e ! j = 0"
        proof (cases "j = i")
          case True
          with z show ?thesis by simp
        next
          case False
          with b have "i + 1 \<le> j" by simp
          with a b show ?thesis by simp
        qed
      qed
      with True z 1 show ?thesis by simp
    next
      case nz: False
      with True show ?thesis by auto
    qed
  qed
qed

text \<open>
  Claim C9 at mask = line 0, right after \<^verbatim>\<open>NVIC_EnableSpecificInterrupts\<close> of that mask:
  with the loop counter starting at 1 or at 8 the query returns true; it returns false
  when the counter starts at 0.
\<close>

theorem mask_disabled_uninitialised_counter:
  "fst (NVIC_IsNvicIserMaskDisabled 1 [1, 0, 0, 0, 0, 0, 0, 0]
         (NVIC_EnableSpecificInterrupts [1, 0, 0, 0, 0, 0, 0, 0] (reset_state 4)))
   \<and> fst (NVIC_IsNvicIserMaskDisabled 8 [1, 0, 0, 0, 0, 0, 0, 0]
         (NVIC_EnableSpecificInterrupts [1, 0, 0, 0, 0, 0, 0, 0] (reset_state 4)))
   \<and> \<not> fst (NVIC_IsNvicIserMaskDisabled 0 [1, 0, 0, 0, 0, 0, 0, 0]
         (NVIC_EnableSpecificInterrupts [1, 0, 0, 0, 0, 0, 0, 0] (reset_state 4)))"
  by (simp add: NVIC_IsNvicIserMaskDisabled_def NVIC_EnableSpecificInterrupts_def
      section_defs platform_defs MAX_NVIC_REG_WORDS_def replicate_8)

text \<open>
  Claim C7 in the scenario of the specification, with A = line 32, B = line 33 and
  C = line 0: every line enabled, A and B disabled, then the trigger for A, B and C. With
  the loop counter starting at 1 the first word written to the set-enable and
  clear-enable registers is the enable state itself, and all the lines 0 to 31 end
  disabled; with the counter starting at 8 nothing is pulsed.
\<close>

theorem trigger_specific_uninitialised_counter:
  "nvic_enable (NVIC_DisableSpecificInterrupts [0, 3, 0, 0, 0, 0, 0, 0]
      (NVIC_EnableSpecificInterrupts [0xFFFFFFFF, 0xFFFFFFFF, 0xFFFFFFFF, 0xFFFFFFFF, 0xFFFFFFFF, 0xFFFFFFFF,
          0xFFFFFFFF, 0xFFFFFFFF] (reset_state 4)))
     = [0xFFFFFFFF, 0xFFFFFFFC, 0xFFFFFFFF, 0xFFFFFFFF, 0xFFFFFFFF, 0xFFFFFFFF, 0xFFFFFFFF, 0xFFFFFFFF]
   \<and> nvic_enable (NVIC_TriggerSpecificPendingInterrupts 1 [1, 3, 0, 0, 0, 0, 0, 0]
      (NVIC_DisableSpecificInterrupts [0, 3, 0, 0, 0, 0, 0, 0]
        (NVIC_EnableSpecificInterrupts [0xFFFFFFFF, 0xFFFFFFFF, 0xFFFFFFFF, 0xFFFFFFFF, 0xFFFFFFFF, 0xFFFFFFFF,
          0xFFFFFFFF, 0xFFFFFFFF] (reset_state 4))))
     = [0, 0xFFFFFFFC, 0xFFFFFFFF, 0xFFFFFFFF, 0xFFFFFFFF, 0xFFFFFFFF, 0xFFFFFFFF, 0xFFFFFFFF]
   \<and> ISER_write [0xFFFFFFFF, 3, 0, 0, 0, 0, 0, 0]
        \<in> set (trace (NVIC_TriggerSpecificPendingInterrupts 1 [1, 3, 0, 0, 0, 0, 0, 0]
      (NVIC_DisableSpecificInterrupts [0, 3, 0, 0, 0, 0, 0, 0]
        (NVIC_EnableSpecificInterrupts [0xFFFFFFFF, 0xFFFFFFFF, 0xFFFFFFFF, 0xFFFFFFFF, 0xFFFFFFFF, 0xFFFFFFFF,
          0xFFFFFFFF, 0xFFFFFFFF] (reset_state 4)))))
   \<and> trace (NVIC_TriggerSpecificPendingInterrupts 8 [1, 3, 0, 0, 0, 0, 0, 0]
      (NVIC_DisableSpecificInterrupts [0, 3, 0, 0, 0, 0, 0, 0]
        (NVIC_EnableSpecificInterrupts [0xFFFFFFFF, 0xFFFFFFFF, 0xFFFFFFFF, 0xFFFFFFFF, 0xFFFFFFFF, 0xFFFFFFFF,
          0xFFFFFFFF, 0xFFFFFFFF] (reset_state 4))))
     = trace (NVIC_DisableSpecificInterrupts [0, 3, 0, 0, 0, 0, 0, 0]
        (NVIC_EnableSpecificInterrupts [0xFFFFFFFF, 0xFFFFFFFF, 0xFFFFFFFF, 0xFFFFFFFF, 0xFFFFFFFF, 0xFFFFFFFF,
          0xFFFFFFFF, 0xFFFFFFFF] (reset_state 4)))
         @ [PRIMASK_write True, PRIMASK_write False]"
  by (simp add: NVIC_TriggerSpecificPendingInterrupts_def NVIC_DisableSpecificInterrupts_def
      NVIC_EnableSpecificInterrupts_def section_defs platform_defs MAX_NVIC_REG_WORDS_def replicate_8)

section \<open>The loops with the counter starting at 0\<close>

text \<open>
  Whatever the counter starts from, the query is true right after
  \<^verbatim>\<open>NVIC_DisableSpecificInterrupts\<close> of the same mask. When the counter starts at 0 the
  query is true exactly when no bit of the mask is enabled, and false right after
  \<^verbatim>\<open>NVIC_EnableSpecificInterrupts\<close> of a mask that is not empty.
\<close>

lemma NO_INTERRUPTS_SECTION_read:
  "fst (NO_INTERRUPTS_SECTION (\<lambda>s1. (read_ISER s1, s1)) s) = nvic_enable s"
  by (simp add: section_defs platform_defs)

lemma mask_query_counter_zero:
  "fst (NVIC_IsNvicIserMaskDisabled 0 msk s)
     = (\<forall>j < MAX_NVIC_REG_WORDS. msk ! j AND nvic_enable s ! j = 0)"
  by (simp add: NVIC_IsNvicIserMaskDisabled_def case_prod_unfold NO_INTERRUPTS_SECTION_read
      disabled_loop_from Let_def del: disabled_loop.simps)

lemma nvic_enable_after_disable:
  "nvic_enable (NVIC_DisableSpecificInterrupts d s) = map2 (\<lambda>e w. e AND NOT w) (nvic_enable s) d"
  by (simp add: NVIC_DisableSpecificInterrupts_def NO_INTERRUPTS_SECTION_enable platform_defs)

lemma nvic_enable_after_enable:
  "nvic_enable (NVIC_EnableSpecificInterrupts d s) = map2 (\<lambda>e w. e OR w) (nvic_enable s) d"
  by (simp add: NVIC_EnableSpecificInterrupts_def NO_INTERRUPTS_SECTION_enable platform_defs)

lemma and_and_not: "(w::32 word) AND (e AND NOT w) = 0"
  by (rule bit_word_eqI) (auto simp: bit_simps)

lemma and_or_self: "(w::32 word) AND (e OR w) = w"
  by (rule bit_word_eqI) (auto simp: bit_simps)

lemma mask_query_after_disable:
  assumes "mask_ok msk" and "mask_ok (nvic_enable s)"
  shows "fst (NVIC_IsNvicIserMaskDisabled i msk (NVIC_DisableSpecificInterrupts msk s))"
  using assms
  by (simp add: NVIC_IsNvicIserMaskDisabled_def case_prod_unfold NO_INTERRUPTS_SECTION_read
      disabled_loop_from nvic_enable_after_disable mask_ok_def and_and_not Let_def
      del: disabled_loop.simps)

lemma mask_query_after_enable_counter_zero:
  assumes "mask_ok msk" and "mask_ok (nvic_enable s)" and "msk \<noteq> replicate MAX_NVIC_REG_WORDS 0"
  shows "\<not> fst (NVIC_IsNvicIserMaskDisabled 0 msk (NVIC_EnableSpecificInterrupts msk s))"
proof -
  from assms(1,3) obtain j where j: "j < MAX_NVIC_REG_WORDS" "msk ! j \<noteq> 0"
    by (auto simp: mask_ok_def list_eq_iff_nth_eq)
  with assms(1,2) show ?thesis
    by (auto simp: mask_query_counter_zero nvic_enable_after_enable mask_ok_def and_or_self)
qed

text \<open>
  When the counter starts at 0, \<^verbatim>\<open>NVIC_TriggerSpecificPendingInterrupts\<close> reads the
  enable state inside a critical section and, if some line of the target is disabled,
  writes the lines of the target that are disabled to the set-enable register, executes
  the barrier and writes the same lines to the clear-enable register; every register
  ends as it was.
\<close>

lemma pulse_word: "NOT ((e::32 word) AND t) AND t = t AND NOT e"
  by (rule bit_word_eqI) (auto simp: bit_simps)

lemma pulse_word_or: "(NOT (e::32 word) OR NOT t) AND t = t AND NOT e"
  by (rule bit_word_eqI) (auto simp: bit_simps)

lemma pulse_restores: "((e::32 word) OR (t AND NOT e)) AND NOT (t AND NOT e) = e"
  by (rule bit_word_eqI) (auto simp: bit_simps)

lemma pulse_restores_or: "((e::32 word) OR t AND NOT e) AND (NOT t OR e) = e"
  by (rule bit_word_eqI) (auto simp: bit_simps)

lemma trigger_loop_step:
  assumes "i < MAX_NVIC_REG_WORDS" and "i < length m"
  shows "trigger_loop i t m b
    = trigger_loop (i + 1) t (m[i := t ! i AND NOT (m ! i)]) (b \<or> t ! i AND NOT (m ! i) \<noteq> 0)"
proof -
  have "trigger_loop i t m b
    = (if i < MAX_NVIC_REG_WORDS then
        (let m1 = m[i := m ! i AND t ! i];
             m2 = m1[i := NOT (m1 ! i) AND t ! i]
         in trigger_loop (i + 1) t m2 (if m2 ! i \<noteq> 0 then True else b))
      else (m, b))"
    by (rule trigger_loop.simps)
  also have "\<dots> = trigger_loop (i + 1) t (m[i := t ! i AND NOT (m ! i)])
      (if t ! i AND NOT (m ! i) \<noteq> 0 then True else b)"
    using assms by (simp add: Let_def pulse_word pulse_word_or del: trigger_loop.simps)
  also have "(if t ! i AND NOT (m ! i) \<noteq> 0 then True else b) = (b \<or> t ! i AND NOT (m ! i) \<noteq> 0)"
    by auto
  finally show ?thesis .
qed

lemma trigger_loop_result:
  assumes "length t = MAX_NVIC_REG_WORDS"
  shows "length m = MAX_NVIC_REG_WORDS \<Longrightarrow> i \<le> MAX_NVIC_REG_WORDS \<Longrightarrow>
    trigger_loop i t m b
      = (take i m @ map2 (\<lambda>e w. w AND NOT e) (drop i m) (drop i t),
         b \<or> (\<exists>j. i \<le> j \<and> j < MAX_NVIC_REG_WORDS \<and> t ! j AND NOT (m ! j) \<noteq> 0))"
proof (induction "MAX_NVIC_REG_WORDS - i" arbitrary: i m b)
  case 0
  then have "i = MAX_NVIC_REG_WORDS" by simp
  with 0 show ?case
    by (auto simp del: trigger_loop.simps simp add: trigger_loop.simps [of MAX_NVIC_REG_WORDS])
next
  case (Suc k)
  then have i: "i < MAX_NVIC_REG_WORDS" by simp
  let ?p = "t ! i AND NOT (m ! i)"
  let ?m = "m[i := ?p]"
  have lm: "i < length m" "i < length t"
    using i Suc.prems assms by simp_all
  have step: "trigger_loop i t m b = trigger_loop (i + 1) t ?m (b \<or> ?p \<noteq> 0)"
    by (rule trigger_loop_step [OF i lm(1)])
  have ih: "trigger_loop (i + 1) t ?m (b \<or> ?p \<noteq> 0)
      = (take (i + 1) ?m @ map2 (\<lambda>e w. w AND NOT e) (drop (i + 1) ?m) (drop (i + 1) t),
         (b \<or> ?p \<noteq> 0)
           \<or> (\<exists>j. i + 1 \<le> j \<and> j < MAX_NVIC_REG_WORDS \<and> t ! j AND NOT (?m ! j) \<noteq> 0))"
    using Suc.hyps(1) [of "i + 1" ?m "b \<or> ?p \<noteq> 0"] Suc.hyps(2) Suc.prems i by simp
  have a: "take (i + 1) ?m = take i m @ [?p]"
    using lm by (simp add: take_Suc_conv_app_nth)
  have b: "drop (i + 1) ?m = drop (i + 1) m"
    by simp
  have c: "drop i m = m ! i # drop (i + 1) m" "drop i t = t ! i # drop (i + 1) t"
    using lm by (simp_all add: Cons_nth_drop_Suc)
  have d: "(\<exists>j. i + 1 \<le> j \<and> j < MAX_NVIC_REG_WORDS \<and> t ! j AND NOT (?m ! j) \<noteq> 0)
      = (\<exists>j. i + 1 \<le> j \<and> j < MAX_NVIC_REG_WORDS \<and> t ! j AND NOT (m ! j) \<noteq> 0)"
    by (rule ex_cong) (auto simp del: One_nat_def)
  have e: "((b \<or> ?p \<noteq> 0)
        \<or> (\<exists>j. i + 1 \<le> j \<and> j < MAX_NVIC_REG_WORDS \<and> t ! j AND NOT (m ! j) \<noteq> 0))
      = (b \<or> (\<exists>j. i \<le> j \<and> j < MAX_NVIC_REG_WORDS \<and> t ! j AND NOT (m ! j) \<noteq> 0))"
  proof -
    have "(\<exists>j. i \<le> j \<and> j < MAX_NVIC_REG_WORDS \<and> t ! j AND NOT (m ! j) \<noteq> 0)
        = (?p \<noteq> 0 \<or> (\<exists>j. i + 1 \<le> j \<and> j < MAX_NVIC_REG_WORDS \<and> t ! j AND NOT (m ! j) \<noteq> 0))"
    proof (intro iffI)
      assume "\<exists>j. i \<le> j \<and> j < MAX_NVIC_REG_WORDS \<and> t ! j AND NOT (m ! j) \<noteq> 0"
      then obtain j where j: "i \<le> j" "j < MAX_NVIC_REG_WORDS" "t ! j AND NOT (m ! j) \<noteq> 0"
        by blast
      show "?p \<noteq> 0 \<or> (\<exists>j. i + 1 \<le> j \<and> j < MAX_NVIC_REG_WORDS \<and> t ! j AND NOT (m ! j) \<noteq> 0)"
      proof (cases "j = i")
        case True
        with j show ?thesis by simp
      next
        case False
        with j have "i + 1 \<le> j" by simp
        with j show ?thesis by blast
      qed
    next
      assume "?p \<noteq> 0 \<or> (\<exists>j. i + 1 \<le> j \<and> j < MAX_NVIC_REG_WORDS \<and> t ! j AND NOT (m ! j) \<noteq> 0)"
      then show "\<exists>j. i \<le> j \<and> j < MAX_NVIC_REG_WORDS \<and> t ! j AND NOT (m ! j) \<noteq> 0"
      proof
        assume "?p \<noteq> 0"
        with i show ?thesis by blast
      next
        assume "\<exists>j. i + 1 \<le> j \<and> j < MAX_NVIC_REG_WORDS \<and> t ! j AND NOT (m ! j) \<noteq> 0"
        then obtain j where "i + 1 \<le> j" "j < MAX_NVIC_REG_WORDS" "t ! j AND NOT (m ! j) \<noteq> 0"
          by blast
        then have "i \<le> j \<and> j < MAX_NVIC_REG_WORDS \<and> t ! j AND NOT (m ! j) \<noteq> 0" by simp
        then show ?thesis by blast
      qed
    qed
    then show ?thesis by blast
  qed
  show ?case
    unfolding step ih a b d e c by simp
qed

lemma NO_INTERRUPTS_SECTION_read_state:
  "snd (NO_INTERRUPTS_SECTION (\<lambda>s1. (read_ISER s1, s1)) s) = snd (NVIC_GetNvicIserMask s)"
  by (simp add: NVIC_GetNvicIserMask_def)

lemma GetNvicIserMask_enable: "nvic_enable (snd (NVIC_GetNvicIserMask s)) = nvic_enable s"
  by (simp add: NVIC_GetNvicIserMask_def NO_INTERRUPTS_SECTION_enable disable_irq_def)

lemma pulse_restores_all:
  "length e = length t \<Longrightarrow>
   map2 (\<lambda>e w. e AND NOT w) (map2 (\<lambda>e w. e OR w) e (map2 (\<lambda>e w. w AND NOT e) e t))
     (map2 (\<lambda>e w. w AND NOT e) e t) = (e :: 32 word list)"
  by (induction e t rule: list_induct2) (simp_all add: pulse_restores pulse_restores_or)

lemma pulse_nonzero:
  assumes "length e = MAX_NVIC_REG_WORDS" and "length t = MAX_NVIC_REG_WORDS"
  shows "(\<exists>j. j < MAX_NVIC_REG_WORDS \<and> t ! j AND NOT (e ! j) \<noteq> 0)
     = (map2 (\<lambda>e w. w AND NOT e) e t \<noteq> replicate MAX_NVIC_REG_WORDS (0 :: 32 word))"
  using assms by (auto simp: list_eq_iff_nth_eq)

lemma trigger_specific_counter_zero:
  assumes "mask_ok t" and "mask_ok (nvic_enable s)"
  shows "NVIC_TriggerSpecificPendingInterrupts 0 t s =
    (if map2 (\<lambda>e w. w AND NOT e) (nvic_enable s) t \<noteq> replicate MAX_NVIC_REG_WORDS 0
     then (snd (NVIC_GetNvicIserMask s))
            \<lparr>trace := trace (snd (NVIC_GetNvicIserMask s))
               @ [ISER_write (map2 (\<lambda>e w. w AND NOT e) (nvic_enable s) t), Barrier,
                  ICER_write (map2 (\<lambda>e w. w AND NOT e) (nvic_enable s) t)]\<rparr>
     else snd (NVIC_GetNvicIserMask s))"
proof -
  have l: "length t = MAX_NVIC_REG_WORDS" "length (nvic_enable s) = MAX_NVIC_REG_WORDS"
    using assms by (simp_all add: mask_ok_def)
  have loop: "trigger_loop 0 t (nvic_enable s) False
      = (map2 (\<lambda>e w. w AND NOT e) (nvic_enable s) t,
         map2 (\<lambda>e w. w AND NOT e) (nvic_enable s) t \<noteq> replicate MAX_NVIC_REG_WORDS 0)"
    using trigger_loop_result [OF l(1) l(2), of 0 False] pulse_nonzero [OF l(2) l(1)]
    by (simp del: trigger_loop.simps)
  have r: "map2 (\<lambda>e w. e AND NOT w)
        (map2 (\<lambda>e w. e OR w) (nvic_enable s) (map2 (\<lambda>e w. w AND NOT e) (nvic_enable s) t))
        (map2 (\<lambda>e w. w AND NOT e) (nvic_enable s) t) = nvic_enable s"
    using l by (simp add: pulse_restores_all)
  let ?s1 = "snd (NVIC_GetNvicIserMask s)"
  have g: "NO_INTERRUPTS_SECTION (\<lambda>s1. (read_ISER s1, s1)) s = (nvic_enable s, ?s1)"
    by (simp add: prod_eq_iff NO_INTERRUPTS_SECTION_read NO_INTERRUPTS_SECTION_read_state)
  have "?s1\<lparr>nvic_enable := nvic_enable ?s1\<rparr> = ?s1"
    by simp
  then have upd: "?s1\<lparr>nvic_enable := nvic_enable s\<rparr> = ?s1"
    by (simp only: GetNvicIserMask_enable)
  show ?thesis
    unfolding NVIC_TriggerSpecificPendingInterrupts_def
    by (simp add: g loop Let_def write_ICER_def write_ISER_def ISB_def GetNvicIserMask_enable
        r upd del: trigger_loop.simps)
qed

lemma GetNvicIserMask_state:
  "snd (NVIC_GetNvicIserMask s)
     = s\<lparr>trace := trace s @ PRIMASK_write True # (if primask s then [] else [PRIMASK_write False])\<rparr>"
  by (simp add: NVIC_GetNvicIserMask_def section_defs platform_defs)

lemma trigger_specific_counter_zero_trace:
  assumes "mask_ok t" and "mask_ok (nvic_enable s)"
  shows "regs (NVIC_TriggerSpecificPendingInterrupts 0 t s) = regs s
    \<and> trace (NVIC_TriggerSpecificPendingInterrupts 0 t s)
        = trace s @ PRIMASK_write True # (if primask s then [] else [PRIMASK_write False])
          @ (if map2 (\<lambda>e w. w AND NOT e) (nvic_enable s) t = replicate MAX_NVIC_REG_WORDS 0
             then []
             else [ISER_write (map2 (\<lambda>e w. w AND NOT e) (nvic_enable s) t), Barrier,
                   ICER_write (map2 (\<lambda>e w. w AND NOT e) (nvic_enable s) t)])"
  by (simp add: trigger_specific_counter_zero [OF assms] GetNvicIserMask_state regs_def)

end
